theory Spec2Isabelle
  imports Main
begin

section \<open>JavaScript values used by the telemetry SDK\<close>

text \<open>
  Strings are lists of characters. Numbers are integers: every number the SDK computes
  with is a count or a duration in milliseconds (a difference of two \<^verbatim>\<open>Date.now()\<close>
  readings), and the arithmetic on them is exact. A value of type \<^verbatim>\<open>unknown\<close> (an event's
  free-form payload or metadata) is a tree of plain data; an object is the list of its
  entries in the order \<^verbatim>\<open>Object.entries\<close> gives them, with no key twice.
\<close>

datatype json =
    JUndefined
  | JNull
  | JBool bool
  | JNum int
  | JStr string
  | JArr "json list"
  | JObj "(string \<times> json) list"

datatype js_error = TypeError | Error string

text \<open>A settled promise: it resolved with a result or rejected with an error.\<close>

datatype 'a promise = Resolved 'a | Rejected js_error

definition digit_char :: "nat \<Rightarrow> char" where
  "digit_char d = ''0123456789'' ! d"

fun show_nat :: "nat \<Rightarrow> string" where
  "show_nat n = (if n < 10 then [digit_char n] else show_nat (n div 10) @ [digit_char (n mod 10)])"

declare show_nat.simps [simp del]

definition show_int :: "int \<Rightarrow> string" where
  "show_int i = (if i < 0 then CHR ''-'' # show_nat (nat (- i)) else show_nat (nat i))"

text \<open>Template interpolation of a string that may be \<^verbatim>\<open>undefined\<close>.\<close>

fun show_str :: "string option \<Rightarrow> string" where
  "show_str None = ''undefined''"
| "show_str (Some s) = s"

definition lower_char :: "char \<Rightarrow> char" where
  "lower_char c =
     (let n = (of_char c :: nat)
      in if (65 \<le> n \<and> n \<le> 90) \<or> (192 \<le> n \<and> n \<le> 222 \<and> n \<noteq> 215)
         then char_of (n + 32) else c)"

definition toLowerCase :: "string \<Rightarrow> string" where
  "toLowerCase s = map lower_char s"

fun startsWith :: "string \<Rightarrow> string \<Rightarrow> bool" where
  "startsWith s [] = True"
| "startsWith [] (c # t) = False"
| "startsWith (a # s) (c # t) = (a = c \<and> startsWith s t)"

text \<open>\<^verbatim>\<open>s.includes(t)\<close>: \<open>t\<close> occurs in \<open>s\<close> as a contiguous run.\<close>

fun string_includes :: "string \<Rightarrow> string \<Rightarrow> bool" where
  "string_includes [] t = (t = [])"
| "string_includes (a # s) t = (startsWith (a # s) t \<or> string_includes s t)"

section \<open>Event model (events/types.ts)\<close>

definition WORKFLOW_STARTED :: string where "WORKFLOW_STARTED = ''workflow.started''"
definition WORKFLOW_COMPLETED :: string where "WORKFLOW_COMPLETED = ''workflow.completed''"
definition WORKFLOW_FAILED :: string where "WORKFLOW_FAILED = ''workflow.failed''"
definition NODE_STARTED :: string where "NODE_STARTED = ''node.started''"
definition NODE_COMPLETED :: string where "NODE_COMPLETED = ''node.completed''"
definition NODE_FAILED :: string where "NODE_FAILED = ''node.failed''"
definition EVAL_COMPLETED :: string where "EVAL_COMPLETED = ''eval.completed''"
definition LLM_REQUESTED :: string where "LLM_REQUESTED = ''llm.requested''"
definition LLM_RESPONDED :: string where "LLM_RESPONDED = ''llm.responded''"
definition CUSTOM :: string where "CUSTOM = ''custom''"

datatype EventStatus = started | completed | failed

record NodeContext =
  node_id :: "string option"
  node_name :: string
  node_type :: string
  node_index :: "int option"

record SlowestNode =
  name :: string
  duration_ms :: int

record LlmMetrics =
  total_requests :: nat
  total_tokens :: "int option"
  total_latency_ms :: "int option"

text \<open>
  \<open>total_duration_ms\<close> is declared a number; the evaluator copies it from the terminal
  workflow event, so it is \<^verbatim>\<open>undefined\<close> (\<open>None\<close>) when that event carries no
  \<^verbatim>\<open>duration_ms\<close>.
\<close>

record EvalMetrics =
  total_duration_ms :: "int option"
  node_count :: nat
  failed_node_count :: nat
  slowest_node :: "SlowestNode option"
  avg_node_duration_ms :: "int option"
  llm_metrics :: "LlmMetrics option"

text \<open>The payload shapes of the event union, one constructor per shape.\<close>

datatype payload =
    WorkflowStartedPayload "string option" "string option" "bool option"
  | WorkflowCompletedPayload nat "string option"
  | WorkflowFailedPayload string "string option" "string option" "string option"
  | NodeStartedPayload "int option"
  | NodeCompletedPayload "int option"
  | NodeFailedPayload string "string option"
  | EvalCompletedPayload int "string list" "string list" EvalMetrics
  | LLMRequestedPayload "string option" "string option" "int option"
  | LLMRespondedPayload "string option" "string option" "int option" "int option"
  | CustomPayload string "json option"

text \<open>
  Property reads on a payload: a payload of another shape does not have the property,
  and the read gives \<^verbatim>\<open>undefined\<close>.
\<close>

fun error_message :: "payload \<Rightarrow> string option" where
  "error_message (WorkflowFailedPayload m n t s) = Some m"
| "error_message (NodeFailedPayload m t) = Some m"
| "error_message p = None"

fun error_node :: "payload \<Rightarrow> string option" where
  "error_node (WorkflowFailedPayload m n t s) = n"
| "error_node p = None"

fun payload_total_tokens :: "payload \<Rightarrow> int option" where
  "payload_total_tokens (LLMRespondedPayload p m c t) = t"
| "payload_total_tokens p = None"

text \<open>The execution context from which the factory fills an event (events/factory.ts).\<close>

record ExecutionContext =
  execution_id :: string
  workflow_id :: string
  workflow_name :: "string option"
  run_id :: "string option"
  session_id :: "string option"
  metadata :: "(string \<times> json) list option"

record TelemetryEvent =
  event_id :: string
  event_type :: string
  timestamp :: string
  run_id :: string
  workflow_id :: string
  workflow_name :: "string option"
  execution_id :: string
  session_id :: "string option"
  node_context :: "NodeContext option"
  duration_ms :: "int option"
  status :: EventStatus
  payload :: payload
  metadata :: "(string \<times> json) list option"

section \<open>Workflow evaluator (evaluator/evaluator.ts)\<close>

record EvaluatorConfig =
  maxWorkflowDurationMs :: int
  maxNodeDurationMs :: int
  failedNodePenalty :: int
  workflowFailureMaxScore :: int
  slowWorkflowPenaltyPerSecond :: int
  slowNodePenalty :: int
  successBonus :: int

definition DEFAULT_CONFIG :: EvaluatorConfig where
  "DEFAULT_CONFIG =
     \<lparr> maxWorkflowDurationMs = 60000,
       maxNodeDurationMs = 10000,
       failedNodePenalty = 15,
       workflowFailureMaxScore = 30,
       slowWorkflowPenaltyPerSecond = 2,
       slowNodePenalty = 5,
       successBonus = 10 \<rparr>"

record EvaluationResult =
  score :: int
  labels :: "string list"
  reasons :: "string list"
  metrics :: EvalMetrics

text \<open>
  The two renderings of a fractional number in the reasons, \<^verbatim>\<open>(ms / 1000).toFixed(2)\<close>
  and \<^verbatim>\<open>`${ms / 1000}`\<close>, are floating-point conversions of the runtime; the evaluator
  takes them as parameters.
\<close>

record NumberFormat =
  seconds_toFixed2 :: "int \<Rightarrow> string"
  seconds_toString :: "int \<Rightarrow> string"

text \<open>
  The loop that finds the slowest node. Reading \<^verbatim>\<open>node_context.node_name\<close> of an event
  without a node context raises a TypeError.
\<close>

fun find_slowest :: "SlowestNode option \<Rightarrow> TelemetryEvent list \<Rightarrow> js_error + SlowestNode option" where
  "find_slowest slowest [] = Inr slowest"
| "find_slowest slowest (e # es) =
     (case duration_ms e of
        None \<Rightarrow> find_slowest slowest es
      | Some d \<Rightarrow>
          if (case slowest of None \<Rightarrow> True | Some s \<Rightarrow> d > SlowestNode.duration_ms s)
          then (case node_context e of
                  None \<Rightarrow> Inl TypeError
                | Some nc \<Rightarrow>
                    find_slowest (Some \<lparr> name = node_name nc, SlowestNode.duration_ms = d \<rparr>) es)
          else find_slowest slowest es)"

text \<open>One reason line per failed node.\<close>

fun failed_node_lines :: "TelemetryEvent list \<Rightarrow> js_error + string list" where
  "failed_node_lines [] = Inr []"
| "failed_node_lines (e # es) =
     (case node_context e of
        None \<Rightarrow> Inl TypeError
      | Some nc \<Rightarrow>
          (case failed_node_lines es of
             Inl err \<Rightarrow> Inl err
           | Inr ls \<Rightarrow>
               Inr ((''  - '' @ node_name nc @ '': '' @ show_str (error_message (payload e))) # ls)))"

text \<open>One reason line per slow node; a slow node has a duration.\<close>

fun slow_node_lines :: "NumberFormat \<Rightarrow> TelemetryEvent list \<Rightarrow> js_error + string list" where
  "slow_node_lines fmt [] = Inr []"
| "slow_node_lines fmt (e # es) =
     (case node_context e of
        None \<Rightarrow> Inl TypeError
      | Some nc \<Rightarrow>
          (case slow_node_lines fmt es of
             Inl err \<Rightarrow> Inl err
           | Inr ls \<Rightarrow>
               Inr ((''  - '' @ node_name nc @ '': ''
                     @ seconds_toFixed2 fmt (case duration_ms e of Some d \<Rightarrow> d | None \<Rightarrow> 0)
                     @ ''s'') # ls)))"

text \<open>\<^verbatim>\<open>Math.round(a / b)\<close> for a positive count \<open>b\<close>: halves round up.\<close>

definition round_div :: "int \<Rightarrow> int \<Rightarrow> int" where
  "round_div a b = (2 * a + b) div (2 * b)"

definition is_slow :: "EvaluatorConfig \<Rightarrow> TelemetryEvent \<Rightarrow> bool" where
  "is_slow config e =
     (case duration_ms e of None \<Rightarrow> False | Some d \<Rightarrow> d > maxNodeDurationMs config)"

text \<open>Truthiness of an optional number and of an optional string.\<close>

fun truthy_num :: "int option \<Rightarrow> int" where
  "truthy_num None = 0"
| "truthy_num (Some n) = n"

fun truthy_str :: "string option \<Rightarrow> bool" where
  "truthy_str None = False"
| "truthy_str (Some s) = (s \<noteq> [])"

text \<open>\<^verbatim>\<open>total || undefined\<close>.\<close>

definition or_undefined :: "int \<Rightarrow> int option" where
  "or_undefined n = (if n = 0 then None else Some n)"

definition llm_metrics_of :: "TelemetryEvent list \<Rightarrow> LlmMetrics option" where
  "llm_metrics_of events =
     (let llmEvents = filter (\<lambda>e. event_type e = LLM_REQUESTED \<or> event_type e = LLM_RESPONDED) events
      in if length llmEvents > 0 then
           (let llmResponses = filter (\<lambda>e. event_type e = LLM_RESPONDED) events;
                totalTokens = sum_list (map (\<lambda>r. truthy_num (payload_total_tokens (payload r))) llmResponses);
                totalLatency = sum_list (map (\<lambda>r. truthy_num (duration_ms r)) llmResponses)
            in Some \<lparr> total_requests = length llmEvents div 2,
                      total_tokens = or_undefined totalTokens,
                      total_latency_ms = or_undefined totalLatency \<rparr>)
         else None)"

text \<open>
  The running score, the labels and the reasons, as the five rules of \<open>evaluate\<close>
  update them.
\<close>

type_synonym scoring = "int \<times> string list \<times> string list"

text \<open>Rule 1: a workflow failure caps the score.\<close>

definition rule_workflow_failure :: "EvaluatorConfig \<Rightarrow> TelemetryEvent option \<Rightarrow> scoring \<Rightarrow> scoring" where
  "rule_workflow_failure config workflowFailedEvent sc =
     (case sc of (s, ls, rs) \<Rightarrow>
        (case workflowFailedEvent of
           None \<Rightarrow> (s, ls, rs)
         | Some w \<Rightarrow>
             (min s (workflowFailureMaxScore config),
              ls @ [''workflow_failed''],
              rs
              @ [''Workflow failed: '' @ show_str (error_message (payload w))]
              @ (if truthy_str (error_node (payload w))
                 then [''Error occurred in node: '' @ show_str (error_node (payload w))]
                 else []))))"

text \<open>Rule 2: a penalty per failed node.\<close>

definition rule_failed_nodes :: "EvaluatorConfig \<Rightarrow> TelemetryEvent list \<Rightarrow> scoring \<Rightarrow> js_error + scoring" where
  "rule_failed_nodes config nodeFailedEvents sc =
     (case sc of (s, ls, rs) \<Rightarrow>
        (let failedNodeCount = length nodeFailedEvents
         in if failedNodeCount > 0 then
              (let penalty = int failedNodeCount * failedNodePenalty config
               in case failed_node_lines nodeFailedEvents of
                    Inl err \<Rightarrow> Inl err
                  | Inr failedLines \<Rightarrow>
                      Inr (s - penalty,
                           ls @ [''node_failures''],
                           rs
                           @ [show_nat failedNodeCount @ '' node(s) failed (-''
                              @ show_int penalty @ '' points)'']
                           @ failedLines))
            else Inr (s, ls, rs)))"

text \<open>
  Rule 3: a penalty per second over the workflow threshold. A total duration that is
  \<^verbatim>\<open>undefined\<close> compares false with the threshold.
\<close>

definition rule_slow_workflow :: "NumberFormat \<Rightarrow> EvaluatorConfig \<Rightarrow> int option \<Rightarrow> scoring \<Rightarrow> scoring" where
  "rule_slow_workflow fmt config totalDurationMs sc =
     (case sc of (s, ls, rs) \<Rightarrow>
        (case totalDurationMs of
           None \<Rightarrow> (s, ls, rs)
         | Some t \<Rightarrow>
             if t > maxWorkflowDurationMs config then
               (let penalty =
                      ((t - maxWorkflowDurationMs config) * slowWorkflowPenaltyPerSecond config)
                      div 1000
                in (s - penalty,
                    ls @ [''slow_execution''],
                    rs
                    @ [''Workflow exceeded time threshold: '' @ seconds_toFixed2 fmt t
                       @ ''s > '' @ seconds_toString fmt (maxWorkflowDurationMs config)
                       @ ''s (-'' @ show_int penalty @ '' points)'']))
             else (s, ls, rs)))"

text \<open>Rule 4: a penalty per slow node.\<close>

definition rule_slow_nodes :: "NumberFormat \<Rightarrow> EvaluatorConfig \<Rightarrow> TelemetryEvent list \<Rightarrow> scoring \<Rightarrow> js_error + scoring" where
  "rule_slow_nodes fmt config slowNodes sc =
     (case sc of (s, ls, rs) \<Rightarrow>
        (if length slowNodes > 0 then
           (let penalty = int (length slowNodes) * slowNodePenalty config
            in case slow_node_lines fmt slowNodes of
                 Inl err \<Rightarrow> Inl err
               | Inr slowLines \<Rightarrow>
                   Inr (s - penalty,
                        ls @ [''slow_nodes''],
                        rs
                        @ [show_nat (length slowNodes) @ '' node(s) exceeded time threshold (-''
                           @ show_int penalty @ '' points)'']
                        @ slowLines))
         else Inr (s, ls, rs)))"

text \<open>Rule 5: the bonus of a clean execution.\<close>

definition rule_success_bonus :: "EvaluatorConfig \<Rightarrow> TelemetryEvent option \<Rightarrow> nat \<Rightarrow> nat \<Rightarrow> scoring \<Rightarrow> scoring" where
  "rule_success_bonus config workflowCompletedEvent failedNodeCount slowNodeCount sc =
     (case sc of (s, ls, rs) \<Rightarrow>
        (if workflowCompletedEvent \<noteq> None \<and> failedNodeCount = 0 \<and> slowNodeCount = 0 then
           (s + successBonus config,
            ls @ [''clean_execution''],
            rs
            @ [''Clean execution with no failures (+'' @ show_int (successBonus config)
               @ '' points)''])
         else (s, ls, rs)))"

definition average_duration :: "TelemetryEvent list \<Rightarrow> int" where
  "average_duration allNodeEndEvents =
     (let nodeDurations = List.map_filter duration_ms allNodeEndEvents
      in if length nodeDurations > 0
         then round_div (sum_list nodeDurations) (int (length nodeDurations)) else 0)"

text \<open>
  \<open>evaluate\<close>: the events are sorted out, the slowest node is found, the rules run in
  the order of the source on a score that starts at 100, the score is clamped, and the
  metrics are built. A TypeError raised on the way ends the call.
\<close>

definition evaluate :: "NumberFormat \<Rightarrow> EvaluatorConfig \<Rightarrow> TelemetryEvent list \<Rightarrow> js_error + EvaluationResult" where
  "evaluate fmt config events =
    (let nodeStartEvents = filter (\<lambda>e. event_type e = NODE_STARTED) events;
         nodeCompletedEvents = filter (\<lambda>e. event_type e = NODE_COMPLETED) events;
         nodeFailedEvents = filter (\<lambda>e. event_type e = NODE_FAILED) events;
         workflowCompletedEvent = find (\<lambda>e. event_type e = WORKFLOW_COMPLETED) events;
         workflowFailedEvent = find (\<lambda>e. event_type e = WORKFLOW_FAILED) events;
         nodeCount = length nodeStartEvents;
         failedNodeCount = length nodeFailedEvents;
         totalDurationMs =
           (case workflowCompletedEvent of
              Some w \<Rightarrow> duration_ms w
            | None \<Rightarrow> (case workflowFailedEvent of Some w \<Rightarrow> duration_ms w | None \<Rightarrow> Some 0));
         allNodeEndEvents = nodeCompletedEvents @ nodeFailedEvents;
         slowNodes = filter (is_slow config) allNodeEndEvents
     in case find_slowest None allNodeEndEvents of
          Inl err \<Rightarrow> Inl err
        | Inr slowestNode \<Rightarrow>
     (case rule_failed_nodes config nodeFailedEvents
             (rule_workflow_failure config workflowFailedEvent (100, [], [])) of
          Inl err \<Rightarrow> Inl err
        | Inr sc2 \<Rightarrow>
     (case rule_slow_nodes fmt config slowNodes
             (rule_slow_workflow fmt config totalDurationMs sc2) of
          Inl err \<Rightarrow> Inl err
        | Inr sc4 \<Rightarrow>
     (case rule_success_bonus config workflowCompletedEvent failedNodeCount (length slowNodes) sc4 of
          (s, ls, rs) \<Rightarrow>
            Inr \<lparr> score = max 0 (min 100 s),
                  labels = ls,
                  reasons = rs,
                  metrics = \<lparr> total_duration_ms = totalDurationMs,
                              node_count = nodeCount,
                              failed_node_count = failedNodeCount,
                              slowest_node = slowestNode,
                              avg_node_duration_ms = Some (average_duration allNodeEndEvents),
                              llm_metrics = llm_metrics_of events \<rparr> \<rparr>))))"

text \<open>
  The shape the event union declares for a node-completed and a node-failed event:
  both carry a node context.
\<close>

definition well_formed :: "TelemetryEvent \<Rightarrow> bool" where
  "well_formed e =
     (if event_type e = NODE_COMPLETED \<or> event_type e = NODE_FAILED
      then node_context e \<noteq> None else True)"

section \<open>Redaction (transport/base.ts)\<close>

definition DEFAULT_REDACT_FIELDS :: "string list" where
  "DEFAULT_REDACT_FIELDS =
     [''password'', ''secret'', ''token'', ''api_key'', ''apiKey'', ''authorization'',
      ''auth'', ''credentials'', ''private_key'', ''privateKey'']"

definition REDACTED :: json where
  "REDACTED = JStr ''[REDACTED]''"

text \<open>\<^verbatim>\<open>fields.some(f => lowerKey.includes(f.toLowerCase()))\<close>\<close>

definition shouldRedact :: "string list \<Rightarrow> string \<Rightarrow> bool" where
  "shouldRedact flds key =
     list_ex (\<lambda>f. string_includes (toLowerCase key) (toLowerCase f)) flds"

text \<open>\<^verbatim>\<open>Object.entries\<close> of an array: its elements under their indices, written in decimal.\<close>

definition array_entries :: "json list \<Rightarrow> (string \<times> json) list" where
  "array_entries items = zip (map show_nat [0 ..< length items]) items"

text \<open>
  \<open>redactSensitiveData flds obj\<close> builds the result entry by entry. An array under a
  key is mapped over its items; an item that is an object is redacted by a recursive
  call, and so is an item that is itself an array (\<^verbatim>\<open>typeof item === 'object'\<close>), which the
  call reads through \<^verbatim>\<open>Object.entries\<close> and returns as a plain object. \<^verbatim>\<open>null\<close> is falsy
  and passes through.
\<close>

function redactSensitiveData :: "string list \<Rightarrow> (string \<times> json) list \<Rightarrow> (string \<times> json) list" where
  "redactSensitiveData flds obj =
     map (\<lambda>entry.
            (fst entry,
             if shouldRedact flds (fst entry) then REDACTED
             else (case snd entry of
                     JObj kvs \<Rightarrow> JObj (redactSensitiveData flds kvs)
                   | JArr items \<Rightarrow>
                       JArr (map (\<lambda>item.
                                    (case item of
                                       JObj kvs \<Rightarrow> JObj (redactSensitiveData flds kvs)
                                     | JArr xs \<Rightarrow> JObj (redactSensitiveData flds (array_entries xs))
                                     | _ \<Rightarrow> item))
                                 items)
                   | _ \<Rightarrow> snd entry)))
         obj"
  by pat_completeness auto
termination
proof (relation "measure (\<lambda>(flds, obj). size_list (\<lambda>entry. size (snd entry)) obj)")
  show "wf (measure (\<lambda>(flds, obj). size_list (\<lambda>entry. size (snd entry)) obj))"
    by simp
next
  fix flds :: "string list" and obj :: "(string \<times> json) list" and entry kvs
  assume "entry \<in> set obj" "snd entry = JObj kvs"
  then have "size (JObj kvs) \<le> size_list (\<lambda>entry. size (snd entry)) obj"
    by (metis size_list_estimation' order_refl)
  moreover have "size_list (\<lambda>entry. size (snd entry)) kvs < size (JObj kvs)"
    by (induction kvs) auto
  ultimately show "((flds, kvs), (flds, obj))
      \<in> measure (\<lambda>(flds, obj). size_list (\<lambda>entry. size (snd entry)) obj)"
    by simp
next
  fix flds :: "string list" and obj :: "(string \<times> json) list" and entry items item kvs
  assume "entry \<in> set obj" "snd entry = JArr items" "item \<in> set items" "item = JObj kvs"
  then have "size (JArr items) \<le> size_list (\<lambda>entry. size (snd entry)) obj"
    by (metis size_list_estimation' order_refl)
  moreover have "size (JObj kvs) < size (JArr items)"
    using \<open>item \<in> set items\<close> \<open>item = JObj kvs\<close>
    by (induction items) auto
  moreover have "size_list (\<lambda>entry. size (snd entry)) kvs < size (JObj kvs)"
    by (induction kvs) auto
  ultimately show "((flds, kvs), (flds, obj))
      \<in> measure (\<lambda>(flds, obj). size_list (\<lambda>entry. size (snd entry)) obj)"
    by simp
next
  fix flds :: "string list" and obj :: "(string \<times> json) list" and entry items item xs
  assume "entry \<in> set obj" "snd entry = JArr items" "item \<in> set items" "item = JArr xs"
  then have "size (JArr items) \<le> size_list (\<lambda>entry. size (snd entry)) obj"
    by (metis size_list_estimation' order_refl)
  moreover have "size (JArr xs) < size (JArr items)"
    using \<open>item \<in> set items\<close> \<open>item = JArr xs\<close>
    by (induction items) auto
  moreover have "size_list (\<lambda>entry. size (snd entry)) (zip ks xs) \<le> size_list size xs" for ks :: "string list"
  proof (induction xs arbitrary: ks)
    case Nil
    show ?case by simp
  next
    case (Cons x xs)
    show ?case
    proof (cases ks)
      case Nil
      then show ?thesis by simp
    next
      case (Cons k ks')
      then show ?thesis using Cons.IH[of ks'] by simp
    qed
  qed
  then have "size_list (\<lambda>entry. size (snd entry)) (array_entries xs) < size (JArr xs)"
    by (simp add: array_entries_def le_imp_less_Suc)
  ultimately show "((flds, array_entries xs), (flds, obj))
      \<in> measure (\<lambda>(flds, obj). size_list (\<lambda>entry. size (snd entry)) obj)"
    by simp
qed

declare redactSensitiveData.simps [simp del]

text \<open>
  Every key of every object in a value that matches a field holds the marker; the
  positions of an array are not keys.
\<close>

fun all_marked :: "string list \<Rightarrow> json \<Rightarrow> bool" where
  "all_marked flds (JObj kvs) =
     list_all (\<lambda>entry. if shouldRedact flds (fst entry) then snd entry = REDACTED
                       else all_marked flds (snd entry)) kvs"
| "all_marked flds (JArr items) = list_all (all_marked flds) items"
| "all_marked flds v = True"

text \<open>A scalar: a value that is neither an object nor an array.\<close>

fun scalar :: "json \<Rightarrow> bool" where
  "scalar (JObj kvs) = False"
| "scalar (JArr items) = False"
| "scalar v = True"

section \<open>Transports (transport/base.ts, transport/http.ts, transport/multi.ts)\<close>

subsection \<open>Configuration\<close>

text \<open>
  The options object of a transport; \<open>None\<close> is an option that is not given. The
  constructor of \<open>BaseTransport\<close> spreads the given options over its defaults.
\<close>

record TransportConfig =
  buffered :: "bool option"
  bufferSize :: "int option"
  flushIntervalMs :: "int option"
  redactPayloads :: "bool option"
  redactFields :: "string list option"

definition no_options :: TransportConfig where
  "no_options =
     \<lparr> buffered = None, bufferSize = None, flushIntervalMs = None,
       redactPayloads = None, redactFields = None \<rparr>"

text \<open>\<^verbatim>\<open>given ?? fallback\<close>, and the spread of a given option over a default.\<close>

fun or_default :: "'a option \<Rightarrow> 'a \<Rightarrow> 'a" where
  "or_default None d = d"
| "or_default (Some v) d = v"

definition base_config :: "TransportConfig \<Rightarrow> TransportConfig" where
  "base_config config =
     \<lparr> buffered = Some (or_default (buffered config) False),
       bufferSize = Some (or_default (bufferSize config) 100),
       flushIntervalMs = Some (or_default (flushIntervalMs config) 5000),
       redactPayloads = Some (or_default (redactPayloads config) True),
       redactFields = Some (or_default (redactFields config) DEFAULT_REDACT_FIELDS) \<rparr>"

text \<open>The File Transport passes its options on as they are.\<close>

definition file_config :: "TransportConfig \<Rightarrow> TransportConfig" where
  "file_config config = base_config config"

text \<open>The HTTP Transport fills in \<open>buffered\<close> and \<open>bufferSize\<close> before it passes them on.\<close>

definition http_config :: "TransportConfig \<Rightarrow> TransportConfig" where
  "http_config config =
     base_config (config \<lparr> buffered := Some (or_default (buffered config) True),
                          bufferSize := Some (or_default (bufferSize config) 50) \<rparr>)"

text \<open>\<^verbatim>\<open>this.config.bufferSize || 100\<close>, the length at which \<open>send\<close> flushes.\<close>

definition flush_threshold :: "TransportConfig \<Rightarrow> int" where
  "flush_threshold config =
     (case bufferSize config of None \<Rightarrow> 100 | Some n \<Rightarrow> if n = 0 then 100 else n)"

subsection \<open>BaseTransport\<close>

text \<open>
  The destination of a transport: the three abstract methods of \<open>BaseTransport\<close>, each
  a function of the destination's state that settles with a promise and a new state.
\<close>

record 'd destination =
  doSend :: "TelemetryEvent \<Rightarrow> 'd \<Rightarrow> unit promise \<times> 'd"
  doSendBatch :: "TelemetryEvent list \<Rightarrow> 'd \<Rightarrow> unit promise \<times> 'd"
  doClose :: "'d \<Rightarrow> unit promise \<times> 'd"

text \<open>The periodic flush timer: running, or cleared by \<^verbatim>\<open>clearInterval\<close>.\<close>

datatype timer = Running | Cleared

record 'd BaseTransport =
  config :: TransportConfig
  buffer :: "TelemetryEvent list"
  flushTimer :: "timer option"
  dest :: 'd

text \<open>The constructor starts the timer when the transport buffers and has a flush interval.\<close>

definition new_transport :: "TransportConfig \<Rightarrow> 'd \<Rightarrow> 'd BaseTransport" where
  "new_transport given d =
     (let c = base_config given
      in \<lparr> config = c,
           buffer = [],
           flushTimer =
             (if buffered c = Some True \<and> flushIntervalMs c \<noteq> None \<and> flushIntervalMs c \<noteq> Some 0
              then Some Running else None),
           dest = d \<rparr>)"

text \<open>
  \<open>flush\<close>: nothing to do on an empty buffer; otherwise the buffer is copied and emptied,
  and then the copy is handed to \<open>doSendBatch\<close>, whose outcome is the outcome of the flush.
\<close>

definition flush :: "'d destination \<Rightarrow> 'd BaseTransport \<Rightarrow> unit promise \<times> 'd BaseTransport" where
  "flush dst t =
     (if buffer t = [] then (Resolved (), t)
      else (let toFlush = buffer t;
                t1 = t \<lparr> buffer := [] \<rparr>
            in case doSendBatch dst toFlush (dest t1) of
                 (outcome, d) \<Rightarrow> (outcome, t1 \<lparr> dest := d \<rparr>)))"

text \<open>
  \<open>close\<close>: the timer is cleared if there is one, then the buffer is flushed, then the
  destination is closed. A rejected flush ends the call: \<open>doClose\<close> is not reached.
\<close>

definition close :: "'d destination \<Rightarrow> 'd BaseTransport \<Rightarrow> unit promise \<times> 'd BaseTransport" where
  "close dst t =
     (let t1 = (case flushTimer t of None \<Rightarrow> t | Some tm \<Rightarrow> t \<lparr> flushTimer := Some Cleared \<rparr>)
      in case flush dst t1 of
           (Rejected err, t2) \<Rightarrow> (Rejected err, t2)
         | (Resolved u, t2) \<Rightarrow>
             (case doClose dst (dest t2) of
                (outcome, d) \<Rightarrow> (outcome, t2 \<lparr> dest := d \<rparr>)))"

subsection \<open>MultiTransport\<close>

text \<open>\<^verbatim>\<open>p.catch(handler)\<close>: a rejection is handled and the promise resolves with the handler's result.\<close>

fun promise_catch :: "'a promise \<Rightarrow> (js_error \<Rightarrow> 'a) \<Rightarrow> 'a promise" where
  "promise_catch (Resolved v) handler = Resolved v"
| "promise_catch (Rejected err) handler = Resolved (handler err)"

text \<open>\<^verbatim>\<open>Promise.all\<close>: resolves with all results, or rejects with a member's rejection.\<close>

fun promise_all :: "'a promise list \<Rightarrow> 'a list promise" where
  "promise_all [] = Resolved []"
| "promise_all (Rejected err # ps) = Rejected err"
| "promise_all (Resolved v # ps) =
     (case promise_all ps of Resolved vs \<Rightarrow> Resolved (v # vs) | Rejected err \<Rightarrow> Rejected err)"

text \<open>
  A member of a composite transport: an object with its name, its methods and its own
  state. The members share no state.
\<close>

record 's Transport =
  transport_name :: string
  send_method :: "TelemetryEvent \<Rightarrow> 's \<Rightarrow> unit promise \<times> 's"
  sendBatch_method :: "TelemetryEvent list \<Rightarrow> 's \<Rightarrow> unit promise \<times> 's"
  member_state :: 's

text \<open>
  The composite transport: its members, and the lines its rejection handlers have
  written with \<^verbatim>\<open>console.error\<close> (the member's name and the error).
\<close>

record 's MultiTransport =
  transports :: "'s Transport list"
  console_errors :: "(string \<times> js_error) list"

text \<open>One member's call: its outcome and the member with its new state.\<close>

definition call_send :: "TelemetryEvent \<Rightarrow> 's Transport \<Rightarrow> unit promise \<times> 's Transport" where
  "call_send event t =
     (case send_method t event (member_state t) of
        (outcome, s) \<Rightarrow> (outcome, t \<lparr> member_state := s \<rparr>))"

definition call_sendBatch :: "TelemetryEvent list \<Rightarrow> 's Transport \<Rightarrow> unit promise \<times> 's Transport" where
  "call_sendBatch events t =
     (case sendBatch_method t events (member_state t) of
        (outcome, s) \<Rightarrow> (outcome, t \<lparr> member_state := s \<rparr>))"

text \<open>The lines the handlers write: one for each member whose call rejected.\<close>

fun logged :: "(unit promise \<times> 's Transport) list \<Rightarrow> (string \<times> js_error) list" where
  "logged [] = []"
| "logged ((Resolved u, t) # rs) = logged rs"
| "logged ((Rejected err, t) # rs) = (transport_name t, err) # logged rs"

text \<open>
  \<^verbatim>\<open>await Promise.all(this.transports.map(t => t.send(event).catch(err => ...)))\<close>:
  every member is called, every call's rejection is caught, and the call awaits all of
  them.
\<close>

definition dispatch :: "('s Transport \<Rightarrow> unit promise \<times> 's Transport) \<Rightarrow> 's MultiTransport \<Rightarrow> unit promise \<times> 's MultiTransport" where
  "dispatch call m =
     (let results = map call (transports m);
          caught = map (\<lambda>r. promise_catch (fst r) (\<lambda>err. ())) results
      in (case promise_all caught of
            Resolved us \<Rightarrow> Resolved ()
          | Rejected err \<Rightarrow> Rejected err,
          m \<lparr> transports := map snd results,
              console_errors := console_errors m @ logged results \<rparr>))"

definition multi_send :: "TelemetryEvent \<Rightarrow> 's MultiTransport \<Rightarrow> unit promise \<times> 's MultiTransport" where
  "multi_send event m = dispatch (call_send event) m"

definition multi_sendBatch :: "TelemetryEvent list \<Rightarrow> 's MultiTransport \<Rightarrow> unit promise \<times> 's MultiTransport" where
  "multi_sendBatch events m = dispatch (call_sendBatch events) m"

section \<open>File Transport (transport/file.ts)\<close>

subsection \<open>Strings of lines\<close>

definition newline :: char where
  "newline = CHR 0x0A"

text \<open>The white space and line terminators that \<^verbatim>\<open>trim\<close> strips, among the 8-bit characters.\<close>

definition js_whitespace :: "char \<Rightarrow> bool" where
  "js_whitespace c =
     (c \<in> set [CHR 0x09, CHR 0x0A, CHR 0x0B, CHR 0x0C, CHR 0x0D, CHR 0x20, CHR 0xA0])"

definition trim :: "string \<Rightarrow> string" where
  "trim s = rev (dropWhile js_whitespace (rev (dropWhile js_whitespace s)))"

text \<open>\<^verbatim>\<open>s.split(c)\<close> for a separator of one character: the empty string splits into one empty part.\<close>

fun split_on :: "char \<Rightarrow> string \<Rightarrow> string list" where
  "split_on c [] = [[]]"
| "split_on c (x # xs) =
     (if x = c then [] # split_on c xs
      else (case split_on c xs of
              [] \<Rightarrow> [[x]]
            | part # parts \<Rightarrow> (x # part) # parts))"

text \<open>\<^verbatim>\<open>parts.join(sep)\<close>\<close>

fun join :: "string \<Rightarrow> string list \<Rightarrow> string" where
  "join sep [] = []"
| "join sep [x] = x"
| "join sep (x # y # ys) = x @ sep @ join sep (y # ys)"

subsection \<open>The transport\<close>

text \<open>
  \<^verbatim>\<open>JSON.stringify\<close> on an event and \<^verbatim>\<open>JSON.parse\<close> on a line belong to the runtime; the
  transport takes them as they are. \<open>parse\<close> gives \<open>None\<close> where \<^verbatim>\<open>JSON.parse\<close> throws.
\<close>

record json_codec =
  stringify :: "TelemetryEvent \<Rightarrow> string"
  parse :: "string \<Rightarrow> TelemetryEvent option"

text \<open>
  The state of a File Transport: the content of the file at its path (\<open>None\<close> when the
  file does not exist) and the in-memory store. Calls run one after the other, as the
  lock on the path arranges, on a file system that carries out each append.
\<close>

record FileTransport =
  fileContent :: "string option"
  inMemoryStore :: "TelemetryEvent list"

text \<open>\<^verbatim>\<open>fs.promises.appendFile\<close>: creates the file if it does not exist.\<close>

definition appendFile :: "string \<Rightarrow> string option \<Rightarrow> string option" where
  "appendFile data f = (case f of None \<Rightarrow> Some data | Some content \<Rightarrow> Some (content @ data))"

definition appendToFile :: "json_codec \<Rightarrow> TelemetryEvent list \<Rightarrow> FileTransport \<Rightarrow> FileTransport" where
  "appendToFile codec events t =
     (let lines = join [newline] (map (stringify codec) events) @ [newline]
      in t \<lparr> fileContent := appendFile lines (fileContent t) \<rparr>)"

definition file_doSend :: "json_codec \<Rightarrow> TelemetryEvent \<Rightarrow> FileTransport \<Rightarrow> unit promise \<times> FileTransport" where
  "file_doSend codec event t =
     (let t1 = appendToFile codec [event] t
      in (Resolved (), t1 \<lparr> inMemoryStore := inMemoryStore t1 @ [event] \<rparr>))"

definition file_doSendBatch :: "json_codec \<Rightarrow> TelemetryEvent list \<Rightarrow> FileTransport \<Rightarrow> unit promise \<times> FileTransport" where
  "file_doSendBatch codec events t =
     (let t1 = appendToFile codec events t
      in (Resolved (), t1 \<lparr> inMemoryStore := inMemoryStore t1 @ events \<rparr>))"

text \<open>No file handle is ever opened, so \<open>doClose\<close> has nothing to close.\<close>

definition file_doClose :: "FileTransport \<Rightarrow> unit promise \<times> FileTransport" where
  "file_doClose t = (Resolved (), t)"

definition file_destination :: "json_codec \<Rightarrow> FileTransport destination" where
  "file_destination codec =
     \<lparr> doSend = file_doSend codec, doSendBatch = file_doSendBatch codec, doClose = file_doClose \<rparr>"

text \<open>\<open>readFromFile\<close> reads the file again; a line that does not parse is skipped.\<close>

definition readFromFile :: "json_codec \<Rightarrow> FileTransport \<Rightarrow> TelemetryEvent list" where
  "readFromFile codec t =
     (case fileContent t of
        None \<Rightarrow> []
      | Some content \<Rightarrow>
          (let lines = filter (\<lambda>line. trim line \<noteq> []) (split_on newline (trim content))
           in List.map_filter (parse codec) lines))"

text \<open>A run of writes through \<open>doSend\<close> and \<open>doSendBatch\<close>, and the events it writes.\<close>

datatype file_write = Send TelemetryEvent | SendBatch "TelemetryEvent list"

fun file_write_step :: "json_codec \<Rightarrow> file_write \<Rightarrow> FileTransport \<Rightarrow> FileTransport" where
  "file_write_step codec (Send e) t = snd (file_doSend codec e t)"
| "file_write_step codec (SendBatch es) t = snd (file_doSendBatch codec es t)"

fun file_writes :: "json_codec \<Rightarrow> file_write list \<Rightarrow> FileTransport \<Rightarrow> FileTransport" where
  "file_writes codec [] t = t"
| "file_writes codec (w # ws) t = file_writes codec ws (file_write_step codec w t)"

fun written :: "file_write list \<Rightarrow> TelemetryEvent list" where
  "written [] = []"
| "written (Send e # ws) = e # written ws"
| "written (SendBatch es # ws) = es @ written ws"

text \<open>
  A well-formed event for the file: its JSON text is that of an object, from
  \<^verbatim>\<open>{\<close> to \<^verbatim>\<open>}\<close> on one line, and parses back to the event.
\<close>

definition serialisable :: "json_codec \<Rightarrow> TelemetryEvent \<Rightarrow> bool" where
  "serialisable codec e =
     (let s = stringify codec e
      in s \<noteq> [] \<and> hd s = CHR ''{'' \<and> last s = CHR ''}'' \<and> newline \<notin> set s
         \<and> parse codec s = Some e)"

text \<open>The text of a list of lines, each ended by a newline.\<close>

definition unlines :: "string list \<Rightarrow> string" where
  "unlines ls = concat (map (\<lambda>l. l @ [newline]) ls)"

text \<open>The lines a write appends: a batch of no events appends one empty line.\<close>

fun write_lines :: "json_codec \<Rightarrow> file_write \<Rightarrow> string list" where
  "write_lines codec (Send e) = [stringify codec e]"
| "write_lines codec (SendBatch es) = (if es = [] then [[]] else map (stringify codec) es)"

section \<open>Execution tracker (tracker.ts)\<close>

record TimingEntry =
  startTime :: int
  nodeContext :: "NodeContext option"
  inputItemsCount :: "int option"

record ExecutionState =
  executionId :: string
  workflowId :: string
  workflowName :: string
  sessionId :: "string option"
  startTime :: int
  nodeTimings :: "string \<rightharpoonup> TimingEntry"
  completedNodes :: "string list"
  failedNodes :: "string list"
  metadata :: "(string \<times> json) list option"

text \<open>
  The tracker is its map of executions. Every state in the map is an object of its own,
  made by \<open>startExecution\<close> and reached through its key only, so the map holds the
  states by value. \<^verbatim>\<open>Date.now()\<close> is the argument \<open>now\<close>.
\<close>

type_synonym ExecutionTracker = "string \<rightharpoonup> ExecutionState"

definition startExecution ::
  "int \<Rightarrow> string \<Rightarrow> string \<Rightarrow> string \<Rightarrow> string option \<Rightarrow> (string \<times> json) list option
   \<Rightarrow> ExecutionTracker \<Rightarrow> ExecutionState \<times> ExecutionTracker" where
  "startExecution now eid wid wname sid meta executions =
     (let state = \<lparr> executionId = eid, workflowId = wid, workflowName = wname, sessionId = sid,
                      startTime = now, nodeTimings = Map.empty, completedNodes = [],
                      failedNodes = [], metadata = meta \<rparr>
      in (state, executions(eid \<mapsto> state)))"

definition getExecution :: "ExecutionTracker \<Rightarrow> string \<Rightarrow> ExecutionState option" where
  "getExecution executions eid = executions eid"

definition startNode ::
  "int \<Rightarrow> string \<Rightarrow> string \<Rightarrow> NodeContext \<Rightarrow> int option
   \<Rightarrow> ExecutionTracker \<Rightarrow> TimingEntry option \<times> ExecutionTracker" where
  "startNode now eid nodeName nc inputCount executions =
     (case executions eid of
        None \<Rightarrow> (None, executions)
      | Some state \<Rightarrow>
          (let entry = \<lparr> TimingEntry.startTime = now, nodeContext = Some nc,
                          inputItemsCount = inputCount \<rparr>
           in (Some entry,
               executions(eid \<mapsto> state \<lparr> nodeTimings := (nodeTimings state)(nodeName \<mapsto> entry) \<rparr>))))"

definition completeNode :: "int \<Rightarrow> string \<Rightarrow> string \<Rightarrow> ExecutionTracker \<Rightarrow> int \<times> ExecutionTracker" where
  "completeNode now eid nodeName executions =
     (case executions eid of
        None \<Rightarrow> (0, executions)
      | Some state \<Rightarrow>
          (case nodeTimings state nodeName of
             None \<Rightarrow> (0, executions)
           | Some timing \<Rightarrow>
               (now - TimingEntry.startTime timing,
                executions(eid \<mapsto> state \<lparr> completedNodes := completedNodes state @ [nodeName] \<rparr>))))"

definition failNode :: "int \<Rightarrow> string \<Rightarrow> string \<Rightarrow> ExecutionTracker \<Rightarrow> int \<times> ExecutionTracker" where
  "failNode now eid nodeName executions =
     (case executions eid of
        None \<Rightarrow> (0, executions)
      | Some state \<Rightarrow>
          (case nodeTimings state nodeName of
             None \<Rightarrow> (0, executions)
           | Some timing \<Rightarrow>
               (now - TimingEntry.startTime timing,
                executions(eid \<mapsto> state \<lparr> failedNodes := failedNodes state @ [nodeName] \<rparr>))))"

text \<open>\<open>completeExecution\<close> returns the duration and the node count; it changes nothing.\<close>

definition completeExecution :: "int \<Rightarrow> string \<Rightarrow> ExecutionTracker \<Rightarrow> int \<times> nat" where
  "completeExecution now eid executions =
     (case executions eid of
        None \<Rightarrow> (0, 0)
      | Some state \<Rightarrow>
          (now - startTime state, length (completedNodes state) + length (failedNodes state)))"

definition cleanupExecution :: "string \<Rightarrow> ExecutionTracker \<Rightarrow> ExecutionTracker" where
  "cleanupExecution eid executions = executions(eid := None)"

section \<open>Event factory (events/factory.ts)\<close>

text \<open>The fresh id (\<^verbatim>\<open>uuidv4()\<close>) and the time stamp (\<^verbatim>\<open>new Date().toISOString()\<close>) of one event.\<close>

record stamp =
  uuid :: string
  iso_time :: string

text \<open>
  \<open>createBaseEvent\<close>; the payload, which every factory adds to the base event, is its
  last argument here. \<^verbatim>\<open>context.run_id || context.execution_id\<close> takes the execution id
  when the run id is missing or empty.
\<close>

definition createBaseEvent :: "stamp \<Rightarrow> ExecutionContext \<Rightarrow> string \<Rightarrow> EventStatus \<Rightarrow> payload \<Rightarrow> TelemetryEvent" where
  "createBaseEvent st ctx eventType eventStatus pl =
     \<lparr> event_id = uuid st,
       event_type = eventType,
       timestamp = iso_time st,
       run_id = (if truthy_str (ExecutionContext.run_id ctx)
                 then show_str (ExecutionContext.run_id ctx)
                 else ExecutionContext.execution_id ctx),
       workflow_id = ExecutionContext.workflow_id ctx,
       workflow_name = ExecutionContext.workflow_name ctx,
       execution_id = ExecutionContext.execution_id ctx,
       session_id = ExecutionContext.session_id ctx,
       node_context = None,
       duration_ms = None,
       status = eventStatus,
       payload = pl,
       metadata = ExecutionContext.metadata ctx \<rparr>"

definition createWorkflowStartedEvent ::
  "stamp \<Rightarrow> ExecutionContext \<Rightarrow> string option \<Rightarrow> string option \<Rightarrow> bool option \<Rightarrow> TelemetryEvent" where
  "createWorkflowStartedEvent st ctx mode retry_of is_manual =
     createBaseEvent st ctx WORKFLOW_STARTED started (WorkflowStartedPayload mode retry_of is_manual)"

definition createWorkflowCompletedEvent ::
  "stamp \<Rightarrow> ExecutionContext \<Rightarrow> int \<Rightarrow> nat \<Rightarrow> string option \<Rightarrow> TelemetryEvent" where
  "createWorkflowCompletedEvent st ctx durationMs nodeCount mode =
     (createBaseEvent st ctx WORKFLOW_COMPLETED completed (WorkflowCompletedPayload nodeCount mode))
       \<lparr> duration_ms := Some durationMs \<rparr>"

text \<open>An error object: its message, its name and its stack.\<close>

record ErrorObject =
  message :: string
  error_name :: string
  stack :: "string option"

definition createWorkflowFailedEvent ::
  "stamp \<Rightarrow> ExecutionContext \<Rightarrow> int \<Rightarrow> ErrorObject \<Rightarrow> string option \<Rightarrow> TelemetryEvent" where
  "createWorkflowFailedEvent st ctx durationMs err errorNode =
     (createBaseEvent st ctx WORKFLOW_FAILED failed
        (WorkflowFailedPayload (message err) errorNode (Some (error_name err)) (stack err)))
       \<lparr> duration_ms := Some durationMs \<rparr>"

definition createNodeStartedEvent ::
  "stamp \<Rightarrow> ExecutionContext \<Rightarrow> NodeContext \<Rightarrow> int option \<Rightarrow> TelemetryEvent" where
  "createNodeStartedEvent st ctx nc inputCount =
     (createBaseEvent st ctx NODE_STARTED started (NodeStartedPayload inputCount))
       \<lparr> node_context := Some nc \<rparr>"

definition createNodeCompletedEvent ::
  "stamp \<Rightarrow> ExecutionContext \<Rightarrow> NodeContext \<Rightarrow> int \<Rightarrow> int option \<Rightarrow> TelemetryEvent" where
  "createNodeCompletedEvent st ctx nc durationMs outputCount =
     (createBaseEvent st ctx NODE_COMPLETED completed (NodeCompletedPayload outputCount))
       \<lparr> node_context := Some nc, duration_ms := Some durationMs \<rparr>"

definition createNodeFailedEvent ::
  "stamp \<Rightarrow> ExecutionContext \<Rightarrow> NodeContext \<Rightarrow> int \<Rightarrow> ErrorObject \<Rightarrow> TelemetryEvent" where
  "createNodeFailedEvent st ctx nc durationMs err =
     (createBaseEvent st ctx NODE_FAILED failed
        (NodeFailedPayload (message err) (Some (error_name err))))
       \<lparr> node_context := Some nc, duration_ms := Some durationMs \<rparr>"

definition createEvalCompletedEvent :: "stamp \<Rightarrow> ExecutionContext \<Rightarrow> EvaluationResult \<Rightarrow> TelemetryEvent" where
  "createEvalCompletedEvent st ctx r =
     createBaseEvent st ctx EVAL_COMPLETED completed
       (EvalCompletedPayload (score r) (labels r) (reasons r) (metrics r))"

section \<open>Telemetry hook (hook.ts)\<close>

record TelemetryHookConfig =
  enableEvaluation :: bool
  defaultSessionId :: "string option"
  defaultMetadata :: "(string \<times> json) list option"

text \<open>
  The hook: its configuration, the tracker, the configuration of its evaluator, the
  events buffered per execution, and the state of its transport. The transport's
  \<open>send\<close> is a parameter of the callbacks: a function of the transport's state that
  settles with a promise.
\<close>

record 't TelemetryHook =
  hookConfig :: TelemetryHookConfig
  tracker :: ExecutionTracker
  evaluator :: EvaluatorConfig
  executionEvents :: "string \<rightharpoonup> TelemetryEvent list"
  transport :: 't

type_synonym 't transport_send = "TelemetryEvent \<Rightarrow> 't \<Rightarrow> unit promise \<times> 't"

text \<open>\<^verbatim>\<open>obj[key] = value\<close> on an object, and the spread of two optional objects into a new one.\<close>

fun assign :: "(string \<times> json) list \<Rightarrow> string \<Rightarrow> json \<Rightarrow> (string \<times> json) list" where
  "assign [] key v = [(key, v)]"
| "assign ((k, w) # kvs) key v = (if k = key then (k, v) # kvs else (k, w) # assign kvs key v)"

definition spread :: "(string \<times> json) list option \<Rightarrow> (string \<times> json) list option \<Rightarrow> (string \<times> json) list" where
  "spread a b =
     foldl (\<lambda>acc kv. assign acc (fst kv) (snd kv))
       (case a of None \<Rightarrow> [] | Some kvs \<Rightarrow> kvs)
       (case b of None \<Rightarrow> [] | Some kvs \<Rightarrow> kvs)"

definition getExecutionContext :: "'t TelemetryHook \<Rightarrow> string \<Rightarrow> ExecutionContext option" where
  "getExecutionContext h eid =
     (case getExecution (tracker h) eid of
        None \<Rightarrow> None
      | Some state \<Rightarrow>
          Some \<lparr> ExecutionContext.execution_id = executionId state,
                 workflow_id = workflowId state,
                 workflow_name = Some (workflowName state),
                 run_id = Some (executionId state),
                 session_id = (if truthy_str (sessionId state) then sessionId state
                               else defaultSessionId (hookConfig h)),
                 metadata = Some (spread (defaultMetadata (hookConfig h)) (metadata state)) \<rparr>)"

text \<open>
  \<open>sendEvent\<close> appends the event to the buffer of its execution and then sends it; the
  outcome is that of the transport.
\<close>

definition sendEvent :: "'t transport_send \<Rightarrow> TelemetryEvent \<Rightarrow> 't TelemetryHook \<Rightarrow> unit promise \<times> 't TelemetryHook" where
  "sendEvent send event h =
     (let buffered = (case executionEvents h (execution_id event) of None \<Rightarrow> [] | Some es \<Rightarrow> es)
                     @ [event];
          h1 = h \<lparr> executionEvents := (executionEvents h)(execution_id event \<mapsto> buffered) \<rparr>
      in case send event (transport h1) of
           (outcome, t) \<Rightarrow> (outcome, h1 \<lparr> transport := t \<rparr>))"

text \<open>The next step of an async function runs when the awaited promise resolved.\<close>

definition and_then ::
  "unit promise \<times> 'h \<Rightarrow> ('h \<Rightarrow> unit promise \<times> 'h) \<Rightarrow> unit promise \<times> 'h" where
  "and_then r next_step =
     (case r of (Resolved u, h) \<Rightarrow> next_step h | (Rejected err, h) \<Rightarrow> (Rejected err, h))"

definition cleanup :: "string \<Rightarrow> 't TelemetryHook \<Rightarrow> 't TelemetryHook" where
  "cleanup eid h =
     h \<lparr> tracker := cleanupExecution eid (tracker h),
         executionEvents := (executionEvents h)(eid := None) \<rparr>"

text \<open>
  \<open>runEvaluation\<close> evaluates the events buffered for the execution and sends the
  evaluation event; an error raised by the evaluator rejects the call.
\<close>

definition runEvaluation ::
  "'t transport_send \<Rightarrow> NumberFormat \<Rightarrow> stamp \<Rightarrow> string \<Rightarrow> ExecutionContext
   \<Rightarrow> 't TelemetryHook \<Rightarrow> unit promise \<times> 't TelemetryHook" where
  "runEvaluation send fmt st eid ctx h =
     (let events = (case executionEvents h eid of None \<Rightarrow> [] | Some es \<Rightarrow> es)
      in if events = [] then (Resolved (), h)
         else (case evaluate fmt (evaluator h) events of
                 Inl err \<Rightarrow> (Rejected err, h)
               | Inr r \<Rightarrow> sendEvent send (createEvalCompletedEvent st ctx r) h))"

definition onWorkflowStart ::
  "'t transport_send \<Rightarrow> stamp \<Rightarrow> int \<Rightarrow> string \<Rightarrow> string \<Rightarrow> string \<Rightarrow> string option \<Rightarrow> string option
   \<Rightarrow> bool option \<Rightarrow> string option \<Rightarrow> (string \<times> json) list option
   \<Rightarrow> 't TelemetryHook \<Rightarrow> unit promise \<times> 't TelemetryHook" where
  "onWorkflowStart send st now eid wid wname mode sid isManual retryOf meta h =
     (let h1 = h \<lparr> tracker := snd (startExecution now eid wid wname sid meta (tracker h)) \<rparr>;
          h2 = h1 \<lparr> executionEvents := (executionEvents h1)(eid \<mapsto> []) \<rparr>
      in case getExecutionContext h2 eid of
           None \<Rightarrow> (Rejected TypeError, h2)
         | Some ctx \<Rightarrow> sendEvent send (createWorkflowStartedEvent st ctx mode retryOf isManual) h2)"

definition finish ::
  "'t transport_send \<Rightarrow> NumberFormat \<Rightarrow> stamp \<Rightarrow> string \<Rightarrow> ExecutionContext
   \<Rightarrow> 't TelemetryHook \<Rightarrow> unit promise \<times> 't TelemetryHook" where
  "finish send fmt st eid ctx h =
     and_then (if enableEvaluation (hookConfig h) then runEvaluation send fmt st eid ctx h
               else (Resolved (), h))
       (\<lambda>h'. (Resolved (), cleanup eid h'))"

definition onWorkflowComplete ::
  "'t transport_send \<Rightarrow> NumberFormat \<Rightarrow> stamp \<Rightarrow> stamp \<Rightarrow> int \<Rightarrow> string \<Rightarrow> string option
   \<Rightarrow> 't TelemetryHook \<Rightarrow> unit promise \<times> 't TelemetryHook" where
  "onWorkflowComplete send fmt st st_eval now eid mode h =
     (case getExecutionContext h eid of
        None \<Rightarrow> (Resolved (), h)
      | Some ctx \<Rightarrow>
          (case completeExecution now eid (tracker h) of
             (duration, nodeCount) \<Rightarrow>
               and_then (sendEvent send (createWorkflowCompletedEvent st ctx duration nodeCount mode) h)
                 (finish send fmt st_eval eid ctx)))"

definition onWorkflowFail ::
  "'t transport_send \<Rightarrow> NumberFormat \<Rightarrow> stamp \<Rightarrow> stamp \<Rightarrow> int \<Rightarrow> string \<Rightarrow> ErrorObject
   \<Rightarrow> string option \<Rightarrow> 't TelemetryHook \<Rightarrow> unit promise \<times> 't TelemetryHook" where
  "onWorkflowFail send fmt st st_eval now eid err errorNode h =
     (case getExecutionContext h eid of
        None \<Rightarrow> (Resolved (), h)
      | Some ctx \<Rightarrow>
          (case completeExecution now eid (tracker h) of
             (duration, nodeCount) \<Rightarrow>
               and_then (sendEvent send (createWorkflowFailedEvent st ctx duration err errorNode) h)
                 (finish send fmt st_eval eid ctx)))"

definition onNodeStart ::
  "'t transport_send \<Rightarrow> stamp \<Rightarrow> int \<Rightarrow> string \<Rightarrow> string \<Rightarrow> string \<Rightarrow> string option \<Rightarrow> int option
   \<Rightarrow> 't TelemetryHook \<Rightarrow> unit promise \<times> 't TelemetryHook" where
  "onNodeStart send st now eid nodeName nodeType nodeId inputCount h =
     (case getExecutionContext h eid of
        None \<Rightarrow> (Resolved (), h)
      | Some ctx \<Rightarrow>
          (let nc = \<lparr> node_id = nodeId, node_name = nodeName, node_type = nodeType,
                       node_index = None \<rparr>;
               h1 = h \<lparr> tracker := snd (startNode now eid nodeName nc inputCount (tracker h)) \<rparr>
           in sendEvent send (createNodeStartedEvent st ctx nc inputCount) h1))"

definition onNodeComplete ::
  "'t transport_send \<Rightarrow> stamp \<Rightarrow> int \<Rightarrow> string \<Rightarrow> string \<Rightarrow> string \<Rightarrow> string option \<Rightarrow> int option
   \<Rightarrow> 't TelemetryHook \<Rightarrow> unit promise \<times> 't TelemetryHook" where
  "onNodeComplete send st now eid nodeName nodeType nodeId outputCount h =
     (case getExecutionContext h eid of
        None \<Rightarrow> (Resolved (), h)
      | Some ctx \<Rightarrow>
          (let nc = \<lparr> node_id = nodeId, node_name = nodeName, node_type = nodeType,
                       node_index = None \<rparr>
           in case completeNode now eid nodeName (tracker h) of
                (duration, executions) \<Rightarrow>
                  sendEvent send (createNodeCompletedEvent st ctx nc duration outputCount)
                    (h \<lparr> tracker := executions \<rparr>)))"

definition onNodeFail ::
  "'t transport_send \<Rightarrow> stamp \<Rightarrow> int \<Rightarrow> string \<Rightarrow> string \<Rightarrow> string \<Rightarrow> string option \<Rightarrow> ErrorObject
   \<Rightarrow> 't TelemetryHook \<Rightarrow> unit promise \<times> 't TelemetryHook" where
  "onNodeFail send st now eid nodeName nodeType nodeId err h =
     (case getExecutionContext h eid of
        None \<Rightarrow> (Resolved (), h)
      | Some ctx \<Rightarrow>
          (let nc = \<lparr> node_id = nodeId, node_name = nodeName, node_type = nodeType,
                       node_index = None \<rparr>
           in case failNode now eid nodeName (tracker h) of
                (duration, executions) \<Rightarrow>
                  sendEvent send (createNodeFailedEvent st ctx nc duration err)
                    (h \<lparr> tracker := executions \<rparr>)))"

subsection \<open>Runs of calls\<close>

text \<open>
  The calls of a run: the operations of the tracker, and the hook's callbacks for a
  workflow start and for the nodes. Each call names its execution.
\<close>

datatype call =
    StartExecution int string string string "string option" "(string \<times> json) list option"
  | StartNode int string string NodeContext "int option"
  | CompleteNode int string string
  | FailNode int string string
  | CompleteExecution int string
  | CleanupExecution string
  | OnWorkflowStart stamp int string string string "string option" "string option" "bool option"
      "string option" "(string \<times> json) list option"
  | OnNodeStart stamp int string string string "string option" "int option"
  | OnNodeComplete stamp int string string string "string option" "int option"
  | OnNodeFail stamp int string string string "string option" ErrorObject

fun call_execution :: "call \<Rightarrow> string" where
  "call_execution (StartExecution now eid wid wname sid meta) = eid"
| "call_execution (StartNode now eid nodeName nc inputCount) = eid"
| "call_execution (CompleteNode now eid nodeName) = eid"
| "call_execution (FailNode now eid nodeName) = eid"
| "call_execution (CompleteExecution now eid) = eid"
| "call_execution (CleanupExecution eid) = eid"
| "call_execution (OnWorkflowStart st now eid wid wname mode sid isManual retryOf meta) = eid"
| "call_execution (OnNodeStart st now eid nodeName nodeType nodeId inputCount) = eid"
| "call_execution (OnNodeComplete st now eid nodeName nodeType nodeId outputCount) = eid"
| "call_execution (OnNodeFail st now eid nodeName nodeType nodeId err) = eid"

text \<open>
  The state a call leaves. The operations of the tracker act on the tracker the hook
  holds; a callback leaves its state whether its promise resolved or rejected.
\<close>

fun run_call :: "'t transport_send \<Rightarrow> call \<Rightarrow> 't TelemetryHook \<Rightarrow> 't TelemetryHook" where
  "run_call send (StartExecution now eid wid wname sid meta) h =
     h \<lparr> tracker := snd (startExecution now eid wid wname sid meta (tracker h)) \<rparr>"
| "run_call send (StartNode now eid nodeName nc inputCount) h =
     h \<lparr> tracker := snd (startNode now eid nodeName nc inputCount (tracker h)) \<rparr>"
| "run_call send (CompleteNode now eid nodeName) h =
     h \<lparr> tracker := snd (completeNode now eid nodeName (tracker h)) \<rparr>"
| "run_call send (FailNode now eid nodeName) h =
     h \<lparr> tracker := snd (failNode now eid nodeName (tracker h)) \<rparr>"
| "run_call send (CompleteExecution now eid) h = h"
| "run_call send (CleanupExecution eid) h =
     h \<lparr> tracker := cleanupExecution eid (tracker h) \<rparr>"
| "run_call send (OnWorkflowStart st now eid wid wname mode sid isManual retryOf meta) h =
     snd (onWorkflowStart send st now eid wid wname mode sid isManual retryOf meta h)"
| "run_call send (OnNodeStart st now eid nodeName nodeType nodeId inputCount) h =
     snd (onNodeStart send st now eid nodeName nodeType nodeId inputCount h)"
| "run_call send (OnNodeComplete st now eid nodeName nodeType nodeId outputCount) h =
     snd (onNodeComplete send st now eid nodeName nodeType nodeId outputCount h)"
| "run_call send (OnNodeFail st now eid nodeName nodeType nodeId err) h =
     snd (onNodeFail send st now eid nodeName nodeType nodeId err h)"

fun run_calls :: "'t transport_send \<Rightarrow> call list \<Rightarrow> 't TelemetryHook \<Rightarrow> 't TelemetryHook" where
  "run_calls send [] h = h"
| "run_calls send (c # cs) h = run_calls send cs (run_call send c h)"

text \<open>What the hook holds for one execution: its state in the tracker and its event buffer.\<close>

definition execution_view :: "'t TelemetryHook \<Rightarrow> string \<Rightarrow> ExecutionState option \<times> TelemetryEvent list option" where
  "execution_view h eid = (tracker h eid, executionEvents h eid)"

text \<open>
  Every state in the tracker's map stands under its own execution id: \<open>startExecution\<close>
  puts it there, and no operation moves it.
\<close>

definition keyed :: "ExecutionTracker \<Rightarrow> bool" where
  "keyed executions = (\<forall>eid state. executions eid = Some state \<longrightarrow> executionId state = eid)"

text \<open>The event buffers after \<open>sendEvent\<close> has appended an event to the buffer of its execution.\<close>

definition appended :: "(string \<rightharpoonup> TelemetryEvent list) \<Rightarrow> TelemetryEvent \<Rightarrow> (string \<rightharpoonup> TelemetryEvent list)" where
  "appended buffers event =
     buffers(execution_id event \<mapsto>
       (case buffers (execution_id event) of None \<Rightarrow> [] | Some es \<Rightarrow> es) @ [event])"

section \<open>Sample inputs\<close>

text \<open>
  Exact decimal renderings of a duration in seconds, and sample events, for evaluating
  the definitions on concrete inputs.
\<close>

definition two_digits :: "nat \<Rightarrow> string" where
  "two_digits n = [digit_char (n div 10 mod 10), digit_char (n mod 10)]"

definition fixed2_seconds :: "int \<Rightarrow> string" where
  "fixed2_seconds ms =
     (let c = (nat \<bar>ms\<bar> + 5) div 10
      in (if ms < 0 then ''-'' else '''') @ show_nat (c div 100) @ ''.'' @ two_digits (c mod 100))"

definition strip_zeros :: "string \<Rightarrow> string" where
  "strip_zeros s = rev (dropWhile (\<lambda>c. c = CHR ''0'') (rev s))"

definition string_seconds :: "int \<Rightarrow> string" where
  "string_seconds ms =
     (let n = nat \<bar>ms\<bar>; frac = n mod 1000
      in (if ms < 0 then ''-'' else '''') @ show_nat (n div 1000)
         @ (if frac = 0 then ''''
            else ''.'' @ strip_zeros (digit_char (frac div 100) # two_digits (frac mod 100))))"

definition decimal_format :: NumberFormat where
  "decimal_format = \<lparr> seconds_toFixed2 = fixed2_seconds, seconds_toString = string_seconds \<rparr>"

definition sample_event :: "string \<Rightarrow> EventStatus \<Rightarrow> NodeContext option \<Rightarrow> int option \<Rightarrow> payload \<Rightarrow> TelemetryEvent" where
  "sample_event ty st nc d p =
     \<lparr> event_id = ''id'', event_type = ty, timestamp = ''2024-01-01T00:00:00.000Z'',
       run_id = ''exec-1'', workflow_id = ''wf-1'', workflow_name = Some ''Demo'',
       execution_id = ''exec-1'', session_id = None, node_context = nc, duration_ms = d,
       status = st, payload = p, metadata = None \<rparr>"

definition sample_node :: "string \<Rightarrow> NodeContext" where
  "sample_node n = \<lparr> node_id = None, node_name = n, node_type = ''n8n-nodes-base.set'', node_index = None \<rparr>"

definition two_failures :: "TelemetryEvent list" where
  "two_failures =
     [ sample_event NODE_FAILED failed (Some (sample_node ''Parse'')) (Some 120) (NodeFailedPayload ''boom'' None),
       sample_event WORKFLOW_FAILED failed None (Some 500) (WorkflowFailedPayload ''Request timed out'' None None None),
       sample_event WORKFLOW_FAILED failed None (Some 500) (WorkflowFailedPayload ''Invalid JSON response'' None None None) ]"

definition slow_failure :: "TelemetryEvent list" where
  "slow_failure =
     [ sample_event WORKFLOW_STARTED started None None (WorkflowStartedPayload None None None),
       sample_event NODE_STARTED started (Some (sample_node ''Parse'')) None (NodeStartedPayload None),
       sample_event NODE_FAILED failed (Some (sample_node ''Parse'')) (Some 12345) (NodeFailedPayload ''Unexpected token'' None),
       sample_event WORKFLOW_FAILED failed None (Some 61500) (WorkflowFailedPayload ''Invalid JSON response'' (Some ''Parse'') None None) ]"


definition scenario_a :: "TelemetryEvent list" where
  "scenario_a =
     [ sample_event WORKFLOW_STARTED started None None (WorkflowStartedPayload None None None),
       sample_event NODE_STARTED started (Some (sample_node ''Fetch'')) None (NodeStartedPayload None),
       sample_event NODE_COMPLETED completed (Some (sample_node ''Fetch'')) (Some 310) (NodeCompletedPayload None),
       sample_event NODE_STARTED started (Some (sample_node ''Parse'')) None (NodeStartedPayload None),
       sample_event NODE_COMPLETED completed (Some (sample_node ''Parse'')) (Some 95) (NodeCompletedPayload None),
       sample_event WORKFLOW_COMPLETED completed None (Some 847) (WorkflowCompletedPayload 2 None) ]"

text \<open>
  An event of type \<^verbatim>\<open>node.failed\<close> in the shape of a custom event, whose \<open>event_type\<close> may
  be any string: it has no node context and no duration.
\<close>

definition missing_context :: "TelemetryEvent list" where
  "missing_context =
     [ sample_event NODE_FAILED failed None None (CustomPayload ''probe'' None) ]"
text \<open>
  A destination that records the calls it receives and rejects every delivery while it
  is unavailable.
\<close>

datatype dest_call = SendCall TelemetryEvent | BatchCall "TelemetryEvent list" | CloseCall

record recorder =
  calls :: "dest_call list"
  unavailable :: bool

definition recorded :: "dest_call \<Rightarrow> recorder \<Rightarrow> unit promise \<times> recorder" where
  "recorded c r =
     (if unavailable r then Rejected (Error ''destination unavailable'') else Resolved (),
      r \<lparr> calls := calls r @ [c] \<rparr>)"

definition recording_destination :: "recorder destination" where
  "recording_destination =
     \<lparr> doSend = (\<lambda>e. recorded (SendCall e)),
       doSendBatch = (\<lambda>es. recorded (BatchCall es)),
       doClose = (\<lambda>r. (Resolved (), r \<lparr> calls := calls r @ [CloseCall] \<rparr>)) \<rparr>"

definition sample_transport :: "bool \<Rightarrow> recorder BaseTransport" where
  "sample_transport down =
     (new_transport (no_options \<lparr> buffered := Some True \<rparr>) \<lparr> calls = [], unavailable = down \<rparr>)
     \<lparr> buffer := [sample_event NODE_STARTED started (Some (sample_node ''Fetch'')) None (NodeStartedPayload None),
                  sample_event NODE_COMPLETED completed (Some (sample_node ''Fetch'')) (Some 310) (NodeCompletedPayload None)] \<rparr>"

definition sample_member :: "string \<Rightarrow> bool \<Rightarrow> recorder Transport" where
  "sample_member n down =
     \<lparr> transport_name = n,
       send_method = (\<lambda>e. recorded (SendCall e)),
       sendBatch_method = (\<lambda>es. recorded (BatchCall es)),
       member_state = \<lparr> calls = [], unavailable = down \<rparr> \<rparr>"

text \<open>
  A codec for the sample events: it writes an event as an object with its id and type,
  and it parses the texts of the sample log.
\<close>

definition quoted :: "string \<Rightarrow> string" where
  "quoted s = CHR 0x22 # s @ [CHR 0x22]"

definition sample_stringify :: "TelemetryEvent \<Rightarrow> string" where
  "sample_stringify e =
     ''{'' @ quoted ''event_id'' @ '':'' @ quoted (event_id e) @ '',''
     @ quoted ''event_type'' @ '':'' @ quoted (event_type e) @ ''}''"

definition sample_log :: "TelemetryEvent list" where
  "sample_log =
     [ (sample_event WORKFLOW_STARTED started None None (WorkflowStartedPayload None None None))
         \<lparr> event_id := ''evt-1'' \<rparr>,
       (sample_event NODE_STARTED started (Some (sample_node ''Fetch'')) None (NodeStartedPayload None))
         \<lparr> event_id := ''evt-2'' \<rparr>,
       (sample_event NODE_COMPLETED completed (Some (sample_node ''Fetch'')) (Some 310) (NodeCompletedPayload None))
         \<lparr> event_id := ''evt-3'' \<rparr> ]"

definition sample_codec :: json_codec where
  "sample_codec =
     \<lparr> stringify = sample_stringify,
       parse = (\<lambda>s. find (\<lambda>e. sample_stringify e = s) sample_log) \<rparr>"

definition sample_writes :: "file_write list" where
  "sample_writes = [Send (sample_log ! 0), SendBatch [], SendBatch [sample_log ! 1, sample_log ! 2]]"

definition new_file :: FileTransport where
  "new_file = \<lparr> fileContent = None, inMemoryStore = [] \<rparr>"

text \<open>
  A hook that has seen no execution, over a transport that records what it is sent, and
  the calls of two executions.
\<close>

definition fresh_hook :: "recorder TelemetryHook" where
  "fresh_hook =
     \<lparr> hookConfig = \<lparr> enableEvaluation = True, defaultSessionId = None, defaultMetadata = None \<rparr>,
       tracker = Map.empty,
       evaluator = DEFAULT_CONFIG,
       executionEvents = Map.empty,
       transport = \<lparr> calls = [], unavailable = False \<rparr> \<rparr>"

definition recorder_send :: "recorder transport_send" where
  "recorder_send event = recorded (SendCall event)"

definition sample_stamp :: "nat \<Rightarrow> stamp" where
  "sample_stamp n = \<lparr> uuid = ''evt-'' @ show_nat n, iso_time = ''2024-01-01T00:00:00.000Z'' \<rparr>"

definition sample_error :: ErrorObject where
  "sample_error = \<lparr> message = ''Unexpected token'', error_name = ''SyntaxError'', stack = None \<rparr>"

definition calls_a :: "call list" where
  "calls_a =
     [ OnWorkflowStart (sample_stamp 1) 1000 ''exec-A'' ''wf-1'' ''Demo'' None None None None None,
       OnNodeStart (sample_stamp 3) 1010 ''exec-A'' ''Fetch'' ''http'' None None,
       OnNodeComplete (sample_stamp 5) 1320 ''exec-A'' ''Fetch'' ''http'' None (Some 1) ]"

definition calls_b :: "call list" where
  "calls_b =
     [ OnWorkflowStart (sample_stamp 2) 1005 ''exec-B'' ''wf-1'' ''Demo'' None None None None None,
       OnNodeStart (sample_stamp 4) 1015 ''exec-B'' ''Fetch'' ''http'' None None,
       OnNodeFail (sample_stamp 6) 1400 ''exec-B'' ''Fetch'' ''http'' None sample_error ]"

definition interleaved_calls :: "call list" where
  "interleaved_calls =
     [calls_a ! 0, calls_b ! 0, calls_b ! 1, calls_a ! 1, calls_a ! 2, calls_b ! 2]"

section \<open>Redaction: properties\<close>

text \<open>The result has the keys of the input, in their order.\<close>

lemma redact_keys: "map fst (redactSensitiveData flds obj) = map fst obj"
  by (subst redactSensitiveData.simps) (simp add: comp_def)

text \<open>In the result, at every depth, every key of an object that matches a field holds the marker.\<close>

lemma redact_all_marked: "all_marked flds (JObj (redactSensitiveData flds obj))"
proof (induction flds obj rule: redactSensitiveData.induct)
  case (1 flds obj)
  have "list_all (\<lambda>entry. if shouldRedact flds (fst entry) then snd entry = REDACTED
                       else all_marked flds (snd entry)) (redactSensitiveData flds obj)"
    unfolding list_all_iff
  proof
    fix r assume "r \<in> set (redactSensitiveData flds obj)"
    then obtain entry where e: "entry \<in> set obj"
      and r: "r = (fst entry,
             if shouldRedact flds (fst entry) then REDACTED
             else (case snd entry of
                     JObj kvs \<Rightarrow> JObj (redactSensitiveData flds kvs)
                   | JArr items \<Rightarrow>
                       JArr (map (\<lambda>item.
                                    (case item of
                                       JObj kvs \<Rightarrow> JObj (redactSensitiveData flds kvs)
                                     | JArr xs \<Rightarrow> JObj (redactSensitiveData flds (array_entries xs))
                                     | _ \<Rightarrow> item))
                                 items)
                   | _ \<Rightarrow> snd entry))"
      by (subst (asm) redactSensitiveData.simps) auto
    show "if shouldRedact flds (fst r) then snd r = REDACTED else all_marked flds (snd r)"
    proof (cases "shouldRedact flds (fst entry)")
      case True
      then show ?thesis using r by simp
    next
      case False
      show ?thesis
      proof (cases "snd entry")
        case (JObj kvs)
        then show ?thesis using r False "1.IH"(3)[OF e False JObj] by simp
      next
        case (JArr items)
        have "all_marked flds (case item of
                                       JObj kvs \<Rightarrow> JObj (redactSensitiveData flds kvs)
                                     | JArr xs \<Rightarrow> JObj (redactSensitiveData flds (array_entries xs))
                                     | _ \<Rightarrow> item)" if "item \<in> set items" for item
          using "1.IH"(1)[OF e False JArr that] "1.IH"(2)[OF e False JArr that]
          by (cases item) simp_all
        then show ?thesis using r False JArr by (simp add: list_all_iff)
      qed (use r False in simp_all)
    qed
  qed
  then show ?case by simp
qed

text \<open>A scalar under a key of the input object that matches no field passes through.\<close>

lemma redact_scalar:
  assumes "(k, v) \<in> set obj" "\<not> shouldRedact flds k" "scalar v"
  shows "(k, v) \<in> set (redactSensitiveData flds obj)"
proof -
  have "(k, v) = (\<lambda>entry.
            (fst entry,
             if shouldRedact flds (fst entry) then REDACTED
             else (case snd entry of
                     JObj kvs \<Rightarrow> JObj (redactSensitiveData flds kvs)
                   | JArr items \<Rightarrow>
                       JArr (map (\<lambda>item.
                                    (case item of
                                       JObj kvs \<Rightarrow> JObj (redactSensitiveData flds kvs)
                                     | JArr xs \<Rightarrow> JObj (redactSensitiveData flds (array_entries xs))
                                     | _ \<Rightarrow> item))
                                 items)
                   | _ \<Rightarrow> snd entry))) (k, v)"
    using assms(2,3) by (cases v) simp_all
  then show ?thesis
    using assms(1) by (subst redactSensitiveData.simps) (simp only: set_map image_iff, blast)
qed

text \<open>
  Claim C2 fails where an array is an element of an array. With the field \<^verbatim>\<open>1\<close>, the
  array under \<^verbatim>\<open>row\<close> passes through, while the same array as an element of the array
  under \<^verbatim>\<open>matrix\<close> comes back as an object keyed by its indices, with its second element
  replaced by the marker.
\<close>

theorem redact_nested_array:
  "redactSensitiveData [''1'']
     [(''row'', JArr [JNum 10, JNum 20]), (''matrix'', JArr [JArr [JNum 10, JNum 20]])]
   = [(''row'', JArr [JNum 10, JNum 20]),
      (''matrix'', JArr [JObj [(''0'', JNum 10), (''1'', JStr ''[REDACTED]'')]])]"
  by code_simp

section \<open>The evaluator: properties\<close>

lemma find_slowest_ok:
  "list_all (\<lambda>e. node_context e \<noteq> None) es \<Longrightarrow> \<exists>s. find_slowest s0 es = Inr s"
  by (induction es arbitrary: s0) (auto split: option.splits)

lemma failed_node_lines_ok:
  "list_all (\<lambda>e. node_context e \<noteq> None) es \<Longrightarrow> \<exists>ls. failed_node_lines es = Inr ls"
  by (induction es) (auto split: option.splits)

lemma slow_node_lines_ok:
  "list_all (\<lambda>e. node_context e \<noteq> None) es \<Longrightarrow> \<exists>ls. slow_node_lines fmt es = Inr ls"
  by (induction es) (auto split: option.splits)

lemma node_end_events_context:
  assumes "list_all well_formed events"
  shows "list_all (\<lambda>e. node_context e \<noteq> None) (filter (\<lambda>e. event_type e = NODE_COMPLETED) events)"
    and "list_all (\<lambda>e. node_context e \<noteq> None) (filter (\<lambda>e. event_type e = NODE_FAILED) events)"
  using assms by (auto simp: list_all_iff well_formed_def)

lemma rule_failed_nodes_ok:
  "list_all (\<lambda>e. node_context e \<noteq> None) es \<Longrightarrow> \<exists>sc'. rule_failed_nodes cfg es sc = Inr sc'"
  using failed_node_lines_ok[of es]
  by (cases sc) (auto simp: rule_failed_nodes_def Let_def)

lemma rule_slow_nodes_ok:
  "list_all (\<lambda>e. node_context e \<noteq> None) es \<Longrightarrow> \<exists>sc'. rule_slow_nodes fmt cfg es sc = Inr sc'"
  using slow_node_lines_ok[of es fmt]
  by (cases sc) (auto simp: rule_slow_nodes_def Let_def)

text \<open>The result of \<open>evaluate\<close> when none of its steps raises.\<close>

lemma evaluate_steps:
  fixes events :: "TelemetryEvent list"
  defines "failedEvs \<equiv> filter (\<lambda>e. event_type e = NODE_FAILED) events"
    and "endEvs \<equiv> filter (\<lambda>e. event_type e = NODE_COMPLETED) events
                    @ filter (\<lambda>e. event_type e = NODE_FAILED) events"
    and "wcomp \<equiv> find (\<lambda>e. event_type e = WORKFLOW_COMPLETED) events"
    and "wfail \<equiv> find (\<lambda>e. event_type e = WORKFLOW_FAILED) events"
  defines "tot \<equiv> (case wcomp of Some w \<Rightarrow> duration_ms w
                     | None \<Rightarrow> (case wfail of Some w \<Rightarrow> duration_ms w | None \<Rightarrow> Some 0))"
  assumes wf: "list_all well_formed events"
  obtains slowest sc2 sc4 s ls rs where
      "rule_failed_nodes cfg failedEvs (rule_workflow_failure cfg wfail (100, [], [])) = Inr sc2"
      "rule_slow_nodes fmt cfg (filter (is_slow cfg) endEvs)
              (rule_slow_workflow fmt cfg tot sc2) = Inr sc4"
      "rule_success_bonus cfg wcomp (length failedEvs) (length (filter (is_slow cfg) endEvs)) sc4
              = (s, ls, rs)"
      "evaluate fmt cfg events =
              Inr \<lparr> score = max 0 (min 100 s), labels = ls, reasons = rs,
                    metrics = \<lparr> total_duration_ms = tot,
                                node_count = length (filter (\<lambda>e. event_type e = NODE_STARTED) events),
                                failed_node_count = length failedEvs,
                                slowest_node = slowest,
                                avg_node_duration_ms = Some (average_duration endEvs),
                                llm_metrics = llm_metrics_of events \<rparr> \<rparr>"
proof -
  have ends: "list_all (\<lambda>e. node_context e \<noteq> None) endEvs"
    unfolding endEvs_def using node_end_events_context[OF wf] by simp
  obtain slowest where s: "find_slowest None endEvs = Inr slowest"
    using find_slowest_ok[OF ends] by blast
  obtain sc2 where sc2: "rule_failed_nodes cfg failedEvs
       (rule_workflow_failure cfg wfail (100, [], [])) = Inr sc2"
    unfolding failedEvs_def
    using rule_failed_nodes_ok[OF node_end_events_context(2)[OF wf]] by blast
  have "list_all (\<lambda>e. node_context e \<noteq> None) (filter (is_slow cfg) endEvs)"
    using ends by (auto simp: list_all_iff)
  then obtain sc4 where sc4: "rule_slow_nodes fmt cfg (filter (is_slow cfg) endEvs)
      (rule_slow_workflow fmt cfg tot sc2) = Inr sc4"
    using rule_slow_nodes_ok by blast
  obtain s ls rs where b: "rule_success_bonus cfg wcomp (length failedEvs) (length (filter (is_slow cfg) endEvs)) sc4
              = (s, ls, rs)"
    using prod_cases3 by blast
  have "evaluate fmt cfg events =
              Inr \<lparr> score = max 0 (min 100 s), labels = ls, reasons = rs,
                    metrics = \<lparr> total_duration_ms = tot,
                                node_count = length (filter (\<lambda>e. event_type e = NODE_STARTED) events),
                                failed_node_count = length failedEvs,
                                slowest_node = slowest,
                                avg_node_duration_ms = Some (average_duration endEvs),
                                llm_metrics = llm_metrics_of events \<rparr> \<rparr>"
    using s sc2 sc4 b
    unfolding evaluate_def Let_def failedEvs_def endEvs_def wcomp_def wfail_def tot_def
    by (simp del: filter_append)
  with sc2 sc4 b show ?thesis by (rule that)
qed

lemma startsWith_append: "startsWith (t @ s) t"
  by (induction t) auto

lemma string_includes_append: "string_includes (p @ t @ q) t"
proof (induction p)
  case Nil
  show ?case using startsWith_append[of t q] by (cases "t @ q") auto
next
  case (Cons a p)
  then show ?case by simp
qed

lemma rule_failed_nodes_Inr:
  assumes "rule_failed_nodes cfg es (s, ls, rs) = Inr (s', ls', rs')" and "es \<noteq> []"
  shows "s' = s - int (length es) * failedNodePenalty cfg"
    and "ls' = ls @ [''node_failures'']"
    and "\<exists>xs. rs' = rs @ xs"
  using assms by (auto simp: rule_failed_nodes_def Let_def split: sum.splits)

lemma rule_slow_workflow_props:
  assumes step: "rule_slow_workflow fmt cfg t (s, ls, rs) = (s', ls', rs')"
    and pos: "0 \<le> slowWorkflowPenaltyPerSecond cfg"
  shows "s' \<le> s" and "\<exists>xs. ls' = ls @ xs" and "\<exists>xs. rs' = rs @ xs"
proof -
  show "\<exists>xs. ls' = ls @ xs" "\<exists>xs. rs' = rs @ xs"
    using step by (auto simp: rule_slow_workflow_def Let_def split: option.splits if_splits)
  show "s' \<le> s"
  proof (cases t)
    case None
    then show ?thesis using step by (simp add: rule_slow_workflow_def)
  next
    case (Some d)
    show ?thesis
    proof (cases "d > maxWorkflowDurationMs cfg")
      case True
      then have "0 \<le> (d - maxWorkflowDurationMs cfg) * slowWorkflowPenaltyPerSecond cfg"
        using pos by simp
      then have "0 \<le> ((d - maxWorkflowDurationMs cfg) * slowWorkflowPenaltyPerSecond cfg) div 1000"
        by (simp add: pos_imp_zdiv_nonneg_iff)
      moreover have "s' = s - ((d - maxWorkflowDurationMs cfg) * slowWorkflowPenaltyPerSecond cfg) div 1000"
        using step Some True by (simp add: rule_slow_workflow_def Let_def)
      ultimately show ?thesis by linarith
    next
      case False
      then show ?thesis using step Some by (simp add: rule_slow_workflow_def)
    qed
  qed
qed

lemma rule_slow_nodes_props:
  assumes step: "rule_slow_nodes fmt cfg es (s, ls, rs) = Inr (s', ls', rs')"
    and pos: "0 \<le> slowNodePenalty cfg"
  shows "s' \<le> s" and "\<exists>xs. ls' = ls @ xs" and "\<exists>xs. rs' = rs @ xs"
proof -
  show "\<exists>xs. ls' = ls @ xs" "\<exists>xs. rs' = rs @ xs"
    using step by (auto simp: rule_slow_nodes_def Let_def split: sum.splits if_splits)
  show "s' \<le> s"
  proof (cases "es = []")
    case True
    then show ?thesis using step by (simp add: rule_slow_nodes_def)
  next
    case False
    have "0 \<le> int (length es) * slowNodePenalty cfg"
      using pos by simp
    moreover have "s' = s - int (length es) * slowNodePenalty cfg"
      using step False by (simp add: rule_slow_nodes_def Let_def split: sum.splits)
    ultimately show ?thesis by linarith
  qed
qed

lemma rule_success_bonus_failed:
  "0 < n \<Longrightarrow> rule_success_bonus cfg wcomp n m sc = sc"
  by (cases sc) (simp add: rule_success_bonus_def)

text \<open>
  Claim C1, amended. \<open>evaluate\<close> reads the node name of a node-completed and of a
  node-failed event from its node context. For every finite sequence of telemetry events
  in which every node-completed and every node-failed event carries its node context,
  \<open>evaluate\<close> with the default configuration returns a result, and its score is an
  integer between 0 and 100. For the empty sequence the score is 100, there are no labels
  and no reasons, the numeric metrics are 0 and the slowest node and the LLM metrics are
  absent.
\<close>

theorem evaluate_score_range:
  "(list_all well_formed events \<longrightarrow>
      (\<exists>r. evaluate fmt DEFAULT_CONFIG events = Inr r \<and> 0 \<le> score r \<and> score r \<le> 100))
   \<and> evaluate fmt DEFAULT_CONFIG [] =
       Inr \<lparr> score = 100, labels = [], reasons = [],
             metrics = \<lparr> total_duration_ms = Some 0, node_count = 0, failed_node_count = 0,
                         slowest_node = None, avg_node_duration_ms = Some 0,
                         llm_metrics = None \<rparr> \<rparr>"
proof
  show "list_all well_formed events \<longrightarrow>
      (\<exists>r. evaluate fmt DEFAULT_CONFIG events = Inr r \<and> 0 \<le> score r \<and> score r \<le> 100)"
  proof
    assume wf: "list_all well_formed events"
    obtain slowest sc2 sc4 s ls rs where "evaluate fmt DEFAULT_CONFIG events =
              Inr \<lparr> score = max 0 (min 100 s), labels = ls, reasons = rs,
                    metrics = \<lparr> total_duration_ms =
                                  (case find (\<lambda>e. event_type e = WORKFLOW_COMPLETED) events of
                                     Some w \<Rightarrow> duration_ms w
                                   | None \<Rightarrow> (case find (\<lambda>e. event_type e = WORKFLOW_FAILED) events of
                                               Some w \<Rightarrow> duration_ms w | None \<Rightarrow> Some 0)),
                                node_count = length (filter (\<lambda>e. event_type e = NODE_STARTED) events),
                                failed_node_count = length (filter (\<lambda>e. event_type e = NODE_FAILED) events),
                                slowest_node = slowest,
                                avg_node_duration_ms = Some (average_duration
                                   (filter (\<lambda>e. event_type e = NODE_COMPLETED) events
                                    @ filter (\<lambda>e. event_type e = NODE_FAILED) events)),
                                llm_metrics = llm_metrics_of events \<rparr> \<rparr>"
      by (rule evaluate_steps[OF wf, of DEFAULT_CONFIG fmt])
    then show "\<exists>r. evaluate fmt DEFAULT_CONFIG events = Inr r \<and> 0 \<le> score r \<and> score r \<le> 100"
      by auto
  qed
next
  show "evaluate fmt DEFAULT_CONFIG [] =
       Inr \<lparr> score = 100, labels = [], reasons = [],
             metrics = \<lparr> total_duration_ms = Some 0, node_count = 0, failed_node_count = 0,
                         slowest_node = None, avg_node_duration_ms = Some 0,
                         llm_metrics = None \<rparr> \<rparr>"
    by (simp add: evaluate_def Let_def rule_workflow_failure_def rule_failed_nodes_def
        rule_slow_workflow_def rule_slow_nodes_def rule_success_bonus_def average_duration_def
        llm_metrics_of_def DEFAULT_CONFIG_def List.map_filter_simps)
qed

text \<open>
  Claim C1 as stated fails on a sequence with a node-failed event that has no node
  context: \<open>evaluate\<close> throws a \<^verbatim>\<open>TypeError\<close> at the read of the node name and returns no
  score.
\<close>

theorem evaluate_score_range_counterexample:
  "evaluate decimal_format DEFAULT_CONFIG missing_context = Inl TypeError
   \<and> \<not> (\<exists>r. evaluate decimal_format DEFAULT_CONFIG missing_context = Inr r
            \<and> 0 \<le> score r \<and> score r \<le> 100)"
proof -
  have "evaluate decimal_format DEFAULT_CONFIG missing_context = Inl TypeError"
    by code_simp
  then show ?thesis by simp
qed

text \<open>The hypothesis of the amended C1 holds of a workflow that completes in 847 ms.\<close>

theorem evaluate_score_range_witness:
  "list_all well_formed scenario_a
   \<and> (\<exists>r. evaluate decimal_format DEFAULT_CONFIG scenario_a = Inr r \<and> 0 \<le> score r \<and> score r \<le> 100)"
proof -
  have wf: "list_all well_formed scenario_a" by code_simp
  from evaluate_score_range[of scenario_a decimal_format] wf
  have "\<exists>r. evaluate decimal_format DEFAULT_CONFIG scenario_a = Inr r \<and> 0 \<le> score r \<and> score r \<le> 100"
    by (elim conjE impE)
  with wf show ?thesis by (rule conjI)
qed

text \<open>
  Claim C4, amended. \<open>evaluate\<close> reads the error message of the first workflow-failed
  event of the sequence (\<^verbatim>\<open>events.find\<close>), and the node name of a node-completed and of
  a node-failed event from its node context. For every sequence of telemetry events in
  which every node-completed and every node-failed event carries its node context, whose
  first workflow-failed event has the error message \<^verbatim>\<open>Invalid JSON response\<close> and which
  holds at least one node-failed event, \<open>evaluate\<close> with the default configuration returns
  a score of at most 30, labels that include \<^verbatim>\<open>workflow_failed\<close> and \<^verbatim>\<open>node_failures\<close>,
  and a reason that contains the error message.
\<close>

theorem evaluate_failed_workflow:
  assumes wf: "list_all well_formed events"
    and first: "find (\<lambda>e. event_type e = WORKFLOW_FAILED) events = Some w"
    and msg: "error_message (payload w) = Some ''Invalid JSON response''"
    and nf: "\<exists>e \<in> set events. event_type e = NODE_FAILED"
  shows "\<exists>r. evaluate fmt DEFAULT_CONFIG events = Inr r
            \<and> score r \<le> 30
            \<and> ''workflow_failed'' \<in> set (labels r)
            \<and> ''node_failures'' \<in> set (labels r)
            \<and> (\<exists>x \<in> set (reasons r). string_includes x ''Invalid JSON response'')"
proof -
  let ?cfg = DEFAULT_CONFIG
  let ?failed = "filter (\<lambda>e. event_type e = NODE_FAILED) events"
  have ne: "?failed \<noteq> []" using nf by (auto simp: filter_empty_conv)
  let ?ends = "filter (\<lambda>e. event_type e = NODE_COMPLETED) events @ ?failed"
  let ?slow = "filter (is_slow ?cfg) ?ends"
  let ?wcomp = "find (\<lambda>e. event_type e = WORKFLOW_COMPLETED) events"
  let ?wfail = "find (\<lambda>e. event_type e = WORKFLOW_FAILED) events"
  let ?tot = "case ?wcomp of Some w \<Rightarrow> duration_ms w
              | None \<Rightarrow> (case ?wfail of Some w \<Rightarrow> duration_ms w | None \<Rightarrow> Some 0)"
  obtain slowest sc2 sc4 s ls rs
    where sc2': "rule_failed_nodes ?cfg ?failed (rule_workflow_failure ?cfg ?wfail (100, [], [])) = Inr sc2"
      and sc4: "rule_slow_nodes fmt ?cfg ?slow (rule_slow_workflow fmt ?cfg ?tot sc2) = Inr sc4"
      and bon: "rule_success_bonus ?cfg ?wcomp (length ?failed) (length ?slow) sc4 = (s, ls, rs)"
      and ev: "evaluate fmt ?cfg events =
              Inr \<lparr> score = max 0 (min 100 s), labels = ls, reasons = rs,
                    metrics = \<lparr> total_duration_ms = ?tot,
                                node_count = length (filter (\<lambda>e. event_type e = NODE_STARTED) events),
                                failed_node_count = length ?failed,
                                slowest_node = slowest,
                                avg_node_duration_ms = Some (average_duration ?ends),
                                llm_metrics = llm_metrics_of events \<rparr> \<rparr>"
    by (rule evaluate_steps[OF wf, of ?cfg fmt])
  note sc2 = sc2'[unfolded first]
  obtain r where r: "evaluate fmt ?cfg events = Inr r" "score r = max 0 (min 100 s)"
      "labels r = ls" "reasons r = rs"
    using ev by simp
  obtain s1 ls1 rs1 where sc1: "rule_workflow_failure ?cfg (Some w) (100, [], []) = (s1, ls1, rs1)"
    using prod_cases3 by blast
  have s1: "s1 \<le> 30" "''workflow_failed'' \<in> set ls1"
       "''Workflow failed: Invalid JSON response'' \<in> set rs1"
    using sc1 msg by (auto simp: rule_workflow_failure_def DEFAULT_CONFIG_def)
  obtain s2 ls2 rs2 where t2: "sc2 = (s2, ls2, rs2)" using prod_cases3 by blast
  obtain s3 ls3 rs3 where t3: "rule_slow_workflow fmt ?cfg ?tot sc2 = (s3, ls3, rs3)"
    using prod_cases3 by blast
  obtain s4 ls4 rs4 where t4: "sc4 = (s4, ls4, rs4)" using prod_cases3 by blast
  have p2: "s2 = s1 - int (length ?failed) * 15" "ls2 = ls1 @ [''node_failures'']" "\<exists>xs. rs2 = rs1 @ xs"
    using rule_failed_nodes_Inr[OF sc2[unfolded sc1 t2] ne] by (simp_all add: DEFAULT_CONFIG_def)
  have p3: "s3 \<le> s2" "\<exists>xs. ls3 = ls2 @ xs" "\<exists>xs. rs3 = rs2 @ xs"
    using rule_slow_workflow_props[OF t3[unfolded t2]] by (simp_all add: DEFAULT_CONFIG_def)
  have p4: "s4 \<le> s3" "\<exists>xs. ls4 = ls3 @ xs" "\<exists>xs. rs4 = rs3 @ xs"
    using rule_slow_nodes_props[OF sc4[unfolded t3 t4]] by (simp_all add: DEFAULT_CONFIG_def)
  have len: "0 < length ?failed" using ne by simp
  have fin: "s = s4" "ls = ls4" "rs = rs4"
    using bon unfolding rule_success_bonus_failed[OF len] t4 by simp_all
  have "s4 \<le> 30" using s1(1) p2(1) p3(1) p4(1) by linarith
  then have a: "score r \<le> 30" using r(2) fin by simp
  have b: "''workflow_failed'' \<in> set (labels r)" "''node_failures'' \<in> set (labels r)"
    using s1(2) p2(2) p3(2) p4(2) r(3) fin by auto
  have c: "''Workflow failed: Invalid JSON response'' \<in> set (reasons r)"
    using s1(3) p2(3) p3(3) p4(3) r(4) fin by auto
  have d: "string_includes ''Workflow failed: Invalid JSON response'' ''Invalid JSON response''"
    using string_includes_append[of "''Workflow failed: ''" "''Invalid JSON response''" "[]"] by simp
  have e: "\<exists>x \<in> set (reasons r). string_includes x ''Invalid JSON response''"
    by (rule bexI[where P = "\<lambda>x. string_includes x ''Invalid JSON response''", OF d c])
  show ?thesis
    using r(1) a b e by (intro exI[of _ r]) simp
qed

text \<open>
  Claim C4 as stated fails on a sequence with two workflow-failed events of which the
  second has the error message: every node-failed event carries its node context,
  \<open>evaluate\<close> returns, and no reason contains the message.
\<close>

lemma two_failures_result:
  "evaluate decimal_format DEFAULT_CONFIG two_failures =
   Inr \<lparr>score = 15, labels = [''workflow_failed'', ''node_failures''],
        reasons =
          [''Workflow failed: Request timed out'',
           ''1 node(s) failed (-15 points)'', ''  - Parse: boom''],
        metrics =
          \<lparr>total_duration_ms = Some 500, node_count = 0,
             failed_node_count = 1,
             slowest_node = Some \<lparr>name = ''Parse'', SlowestNode.duration_ms = 120\<rparr>,
             avg_node_duration_ms = Some 120, llm_metrics = None\<rparr>\<rparr>"
  by code_simp

theorem evaluate_failed_workflow_counterexample:
  "list_all well_formed two_failures
   \<and> (\<exists>e \<in> set two_failures. event_type e = WORKFLOW_FAILED
          \<and> error_message (payload e) = Some ''Invalid JSON response'')
   \<and> (\<exists>e \<in> set two_failures. event_type e = NODE_FAILED)
   \<and> (\<exists>r. evaluate decimal_format DEFAULT_CONFIG two_failures = Inr r
          \<and> \<not> (\<exists>x \<in> set (reasons r). string_includes x ''Invalid JSON response''))"
proof -
  have "list_all well_formed two_failures" by code_simp
  moreover have "\<exists>e \<in> set two_failures. event_type e = WORKFLOW_FAILED
          \<and> error_message (payload e) = Some ''Invalid JSON response''"
    by code_simp
  moreover have "\<exists>e \<in> set two_failures. event_type e = NODE_FAILED" by code_simp
  moreover have "\<not> (\<exists>x \<in> set [''Workflow failed: Request timed out'',
           ''1 node(s) failed (-15 points)'', ''  - Parse: boom'']. string_includes x ''Invalid JSON response'')"
    by code_simp
  ultimately show ?thesis unfolding two_failures_result by simp
qed

text \<open>The hypotheses of the amended C4 hold of a slow workflow that fails after a node failure.\<close>

theorem evaluate_failed_workflow_witness:
  "list_all well_formed slow_failure
   \<and> find (\<lambda>e. event_type e = WORKFLOW_FAILED) slow_failure
       = Some (sample_event WORKFLOW_FAILED failed None (Some 61500)
                 (WorkflowFailedPayload ''Invalid JSON response'' (Some ''Parse'') None None))
   \<and> (\<exists>e \<in> set slow_failure. event_type e = NODE_FAILED)
   \<and> (\<exists>r. evaluate decimal_format DEFAULT_CONFIG slow_failure = Inr r
            \<and> score r \<le> 30
            \<and> ''workflow_failed'' \<in> set (labels r)
            \<and> ''node_failures'' \<in> set (labels r)
            \<and> (\<exists>x \<in> set (reasons r). string_includes x ''Invalid JSON response''))"
proof -
  have a: "list_all well_formed slow_failure" by code_simp
  have b: "find (\<lambda>e. event_type e = WORKFLOW_FAILED) slow_failure
       = Some (sample_event WORKFLOW_FAILED failed None (Some 61500)
                 (WorkflowFailedPayload ''Invalid JSON response'' (Some ''Parse'') None None))"
    by code_simp
  have c: "error_message (payload (sample_event WORKFLOW_FAILED failed None (Some 61500)
                 (WorkflowFailedPayload ''Invalid JSON response'' (Some ''Parse'') None None)))
           = Some ''Invalid JSON response''"
    by (simp add: sample_event_def)
  have d: "\<exists>e \<in> set slow_failure. event_type e = NODE_FAILED" by code_simp
  show ?thesis
    by (intro conjI a b d evaluate_failed_workflow[OF a b c d, of decimal_format])
qed

section \<open>The transports: properties\<close>

text \<open>
  Claim C9, amended. The HTTP Transport buffers by default, and its default buffer size,
  50, is lower than the default buffer size of the File Transport, 100, which the File
  Transport inherits from \<open>BaseTransport\<close> and which does not buffer by default.
\<close>

theorem http_default_buffer:
  "buffered (http_config no_options) = Some True
   \<and> bufferSize (http_config no_options) = Some 50
   \<and> buffered (file_config no_options) = Some False
   \<and> bufferSize (file_config no_options) = Some 100
   \<and> flush_threshold (http_config no_options) < flush_threshold (file_config no_options)"
  by (simp add: http_config_def file_config_def base_config_def no_options_def flush_threshold_def)

text \<open>Claim C9 as stated fails: the default buffer size of the HTTP Transport is not the higher one.\<close>

theorem http_default_buffer_counterexample:
  "\<not> (buffered (http_config no_options) = Some True
       \<and> flush_threshold (http_config no_options) > flush_threshold (file_config no_options))"
  by (simp add: http_config_def file_config_def base_config_def no_options_def flush_threshold_def)

lemma flush_buffer_empty: "buffer (snd (flush dst t)) = []"
  by (simp add: flush_def Let_def split: prod.splits)

lemma flush_timer: "flushTimer (snd (flush dst t)) = flushTimer t"
  by (simp add: flush_def Let_def split: prod.splits)

lemma flush_nonempty:
  "buffer t \<noteq> [] \<Longrightarrow> doSendBatch dst (buffer t) (dest t) = (outcome, d) \<Longrightarrow>
   flush dst t = (outcome, t \<lparr> buffer := [], dest := d \<rparr>)"
  by (simp add: flush_def Let_def)

lemma flush_empty: "buffer t = [] \<Longrightarrow> flush dst t = (Resolved (), t)"
  by (simp add: flush_def)

text \<open>
  Claim C8. However \<open>close\<close> ends, the flush timer is not running afterwards and the
  buffer is empty. With events in the buffer, \<open>close\<close> hands all of them to
  \<open>doSendBatch\<close> first: if that rejects, \<open>close\<close> rejects with the same error and the
  destination is left as the failed delivery left it; if it resolves, the destination is
  closed after it, and the outcome of \<open>close\<close> is that of \<open>doClose\<close>.
\<close>

theorem close_flushes_and_clears_timer:
  assumes "close dst t = (outcome, t')"
  shows "flushTimer t' \<noteq> Some Running
       \<and> buffer t' = []
       \<and> (buffer t = [] \<longrightarrow> (outcome, dest t') = doClose dst (dest t))
       \<and> (buffer t \<noteq> [] \<longrightarrow>
            (case doSendBatch dst (buffer t) (dest t) of
               (Rejected err, d) \<Rightarrow> outcome = Rejected err \<and> dest t' = d
             | (Resolved u, d) \<Rightarrow> (outcome, dest t') = doClose dst d))"
proof -
  define t1 where "t1 = (case flushTimer t of None \<Rightarrow> t | Some tm \<Rightarrow> t \<lparr> flushTimer := Some Cleared \<rparr>)"
  have t1: "flushTimer t1 \<noteq> Some Running" "buffer t1 = buffer t" "dest t1 = dest t"
    by (auto simp: t1_def split: option.splits)
  obtain o2 t2 where f: "flush dst t1 = (o2, t2)" by (cases "flush dst t1") auto
  have t2: "flushTimer t2 \<noteq> Some Running" "buffer t2 = []"
    using flush_timer[of dst t1] flush_buffer_empty[of dst t1] t1(1) f by simp_all
  have c: "(outcome, t') = (case o2 of Rejected err \<Rightarrow> (Rejected err, t2)
              | Resolved u \<Rightarrow> (case doClose dst (dest t2) of (oc, d) \<Rightarrow> (oc, t2 \<lparr> dest := d \<rparr>)))"
    using assms f unfolding close_def t1_def[symmetric] Let_def by (simp split: promise.splits)
  have a: "flushTimer t' \<noteq> Some Running" "buffer t' = []"
    using c t2 by (auto split: promise.splits prod.splits)
  have b: "(outcome, dest t') = doClose dst (dest t)" if "buffer t = []"
  proof -
    have "flush dst t1 = (Resolved (), t1)" using that t1(2) by (simp add: flush_empty)
    with f c t1(3) show ?thesis by (auto split: prod.splits)
  qed
  have d: "(case doSendBatch dst (buffer t) (dest t) of
               (Rejected err, d) \<Rightarrow> outcome = Rejected err \<and> dest t' = d
             | (Resolved u, d) \<Rightarrow> (outcome, dest t') = doClose dst d)" if "buffer t \<noteq> []"
  proof -
    obtain ob d1 where sb: "doSendBatch dst (buffer t) (dest t) = (ob, d1)"
      by (cases "doSendBatch dst (buffer t) (dest t)") auto
    have "flush dst t1 = (ob, t1 \<lparr> buffer := [], dest := d1 \<rparr>)"
      using flush_nonempty[of t1 dst ob d1] that sb t1(2,3) by simp
    with f have "o2 = ob" "t2 = t1 \<lparr> buffer := [], dest := d1 \<rparr>" by simp_all
    with c sb show ?thesis by (auto split: promise.splits prod.splits)
  qed
  from a b d show ?thesis by blast
qed

text \<open>The sample transport: it buffers, its timer runs, and its destination rejects a batch while unavailable.\<close>

lemma sample_transport_facts:
  "buffer (sample_transport down) \<noteq> []"
  "flushTimer (sample_transport down) = Some Running"
  "dest (sample_transport down) = \<lparr> calls = [], unavailable = down \<rparr>"
  by (simp_all add: sample_transport_def new_transport_def base_config_def no_options_def Let_def)

lemma sample_batch_rejected:
  "doSendBatch recording_destination (buffer (sample_transport True)) (dest (sample_transport True))
   = (Rejected (Error ''destination unavailable''),
      \<lparr> calls = [BatchCall (buffer (sample_transport True))], unavailable = True \<rparr>)"
  by (simp add: recording_destination_def recorded_def sample_transport_facts)

text \<open>
  A buffering transport with two events in its buffer and a destination that is
  unavailable: \<open>close\<close> rejects, and the timer is cleared all the same.
\<close>

theorem close_flushes_and_clears_timer_witness:
  "flushTimer (sample_transport True) = Some Running
   \<and> buffer (sample_transport True) \<noteq> []
   \<and> fst (close recording_destination (sample_transport True)) = Rejected (Error ''destination unavailable'')
   \<and> flushTimer (snd (close recording_destination (sample_transport True))) \<noteq> Some Running
   \<and> buffer (snd (close recording_destination (sample_transport True))) = []
   \<and> calls (dest (snd (close recording_destination (sample_transport True))))
       = [BatchCall (buffer (sample_transport True))]"
proof -
  let ?t = "sample_transport True"
  let ?c = "close recording_destination ?t"
  have c: "?c = (fst ?c, snd ?c)" by simp
  from close_flushes_and_clears_timer[OF c] sample_transport_facts(1)[of True] sample_batch_rejected
  have "flushTimer (snd ?c) \<noteq> Some Running \<and> buffer (snd ?c) = []
        \<and> fst ?c = Rejected (Error ''destination unavailable'')
        \<and> dest (snd ?c) = \<lparr> calls = [BatchCall (buffer ?t)], unavailable = True \<rparr>"
    by simp
  then show ?thesis using sample_transport_facts[of True] by simp
qed

text \<open>
  Claim C10. When \<open>doSendBatch\<close> rejects the buffered events, \<open>flush\<close> rejects with the
  same error and leaves the buffer empty. A later \<open>flush\<close> resolves without touching
  the destination, and a later \<open>close\<close> only closes it: the events are not delivered
  again.
\<close>

theorem flush_failure_drops_buffer:
  assumes "buffer t \<noteq> []" and "doSendBatch dst (buffer t) (dest t) = (Rejected err, d)"
  shows "flush dst t = (Rejected err, t \<lparr> buffer := [], dest := d \<rparr>)
       \<and> flush dst (t \<lparr> buffer := [], dest := d \<rparr>) = (Resolved (), t \<lparr> buffer := [], dest := d \<rparr>)
       \<and> (case doClose dst d of (outcome, d') \<Rightarrow>
             fst (close dst (t \<lparr> buffer := [], dest := d \<rparr>)) = outcome
           \<and> dest (snd (close dst (t \<lparr> buffer := [], dest := d \<rparr>))) = d')"
proof -
  have 1: "flush dst t = (Rejected err, t \<lparr> buffer := [], dest := d \<rparr>)"
    using flush_nonempty[OF assms] .
  have 2: "flush dst (t \<lparr> buffer := [], dest := d \<rparr>) = (Resolved (), t \<lparr> buffer := [], dest := d \<rparr>)"
    by (simp add: flush_empty)
  have 3: "(case doClose dst d of (outcome, d') \<Rightarrow>
             fst (close dst (t \<lparr> buffer := [], dest := d \<rparr>)) = outcome
           \<and> dest (snd (close dst (t \<lparr> buffer := [], dest := d \<rparr>))) = d')"
    by (simp add: close_def Let_def flush_empty split: option.splits prod.splits)
  from 1 2 3 show ?thesis by simp
qed

text \<open>The failed flush of the sample transport empties its buffer; the next flush has nothing to send.\<close>

theorem flush_failure_drops_buffer_witness:
  "buffer (sample_transport True) \<noteq> []
   \<and> fst (flush recording_destination (sample_transport True)) = Rejected (Error ''destination unavailable'')
   \<and> buffer (snd (flush recording_destination (sample_transport True))) = []
   \<and> flush recording_destination (snd (flush recording_destination (sample_transport True)))
       = (Resolved (), snd (flush recording_destination (sample_transport True)))"
proof -
  let ?t = "sample_transport True"
  from flush_failure_drops_buffer[OF sample_transport_facts(1)[of True] sample_batch_rejected]
  show ?thesis using sample_transport_facts(1)[of True] by simp
qed

lemma promise_all_caught:
  "\<exists>us. promise_all (map (\<lambda>r. promise_catch (fst r) (\<lambda>err. ())) results) = Resolved us"
proof (induction results)
  case Nil
  show ?case by simp
next
  case (Cons r rs)
  then obtain us where "promise_all (map (\<lambda>r. promise_catch (fst r) (\<lambda>err. ())) rs) = Resolved us"
    by blast
  then show ?case by (cases "fst r") simp_all
qed

lemma dispatch_resolves: "fst (dispatch call m) = Resolved ()"
  using promise_all_caught[of "map call (transports m)"]
  by (auto simp: dispatch_def Let_def)

lemma dispatch_members: "transports (snd (dispatch call m)) = map (\<lambda>t. snd (call t)) (transports m)"
  by (simp add: dispatch_def Let_def)

lemma logged_rejected:
  "(Rejected err, t) \<in> set results \<Longrightarrow> (transport_name t, err) \<in> set (logged results)"
  by (induction results rule: logged.induct) auto

lemma dispatch_console:
  "console_errors (snd (dispatch call m)) = console_errors m @ logged (map call (transports m))"
  by (simp add: dispatch_def Let_def)

lemma member_states_send:
  "map member_state (map (\<lambda>t. snd (call_send event t)) ts)
     = map (\<lambda>t. snd (send_method t event (member_state t))) ts"
  by (induction ts) (simp_all add: call_send_def split: prod.splits)

lemma member_states_sendBatch:
  "map member_state (map (\<lambda>t. snd (call_sendBatch events t)) ts)
     = map (\<lambda>t. snd (sendBatch_method t events (member_state t))) ts"
  by (induction ts) (simp_all add: call_sendBatch_def split: prod.splits)

lemma logged_send:
  "logged (map (call_send event) ts)
     = List.map_filter
         (\<lambda>t. case fst (send_method t event (member_state t)) of
                 Rejected err \<Rightarrow> Some (transport_name t, err)
               | Resolved u \<Rightarrow> None) ts"
proof (induction ts)
  case Nil
  show ?case by (simp add: List.map_filter_simps)
next
  case (Cons t ts)
  obtain outcome s where c: "send_method t event (member_state t) = (outcome, s)"
    by (cases "send_method t event (member_state t)") auto
  show ?case using Cons c
    by (cases outcome) (simp_all add: call_send_def List.map_filter_simps)
qed

lemma logged_sendBatch:
  "logged (map (call_sendBatch events) ts)
     = List.map_filter
         (\<lambda>t. case fst (sendBatch_method t events (member_state t)) of
                 Rejected err \<Rightarrow> Some (transport_name t, err)
               | Resolved u \<Rightarrow> None) ts"
proof (induction ts)
  case Nil
  show ?case by (simp add: List.map_filter_simps)
next
  case (Cons t ts)
  obtain outcome s where c: "sendBatch_method t events (member_state t) = (outcome, s)"
    by (cases "sendBatch_method t events (member_state t)") auto
  show ?case using Cons c
    by (cases outcome) (simp_all add: call_sendBatch_def List.map_filter_simps)
qed

text \<open>
  Claim C6. For every list of members and every event, \<open>send\<close> of the composite
  transport resolves, whichever members reject. Every member's own \<open>send\<close> has been
  called on the event, once and on the member's own state: the states of the members
  afterwards are, member by member, the states their \<open>send\<close> methods leave. Each rejection
  is written to the console under the name of its member, and goes no further. The same
  holds of \<open>sendBatch\<close> and the members' \<open>sendBatch\<close> methods.
\<close>

theorem multi_send_absorbs_failures:
  "fst (multi_send event m) = Resolved ()
   \<and> map member_state (transports (snd (multi_send event m)))
       = map (\<lambda>t. snd (send_method t event (member_state t))) (transports m)
   \<and> console_errors (snd (multi_send event m))
       = console_errors m
         @ List.map_filter
             (\<lambda>t. case fst (send_method t event (member_state t)) of
                     Rejected err \<Rightarrow> Some (transport_name t, err)
                   | Resolved u \<Rightarrow> None) (transports m)
   \<and> fst (multi_sendBatch events m) = Resolved ()
   \<and> map member_state (transports (snd (multi_sendBatch events m)))
       = map (\<lambda>t. snd (sendBatch_method t events (member_state t))) (transports m)
   \<and> console_errors (snd (multi_sendBatch events m))
       = console_errors m
         @ List.map_filter
             (\<lambda>t. case fst (sendBatch_method t events (member_state t)) of
                     Rejected err \<Rightarrow> Some (transport_name t, err)
                   | Resolved u \<Rightarrow> None) (transports m)"
proof -
  have 1: "fst (multi_send event m) = Resolved ()" "fst (multi_sendBatch events m) = Resolved ()"
    by (simp_all add: multi_send_def multi_sendBatch_def dispatch_resolves)
  have 2: "map member_state (transports (snd (multi_send event m)))
       = map (\<lambda>t. snd (send_method t event (member_state t))) (transports m)"
    unfolding multi_send_def dispatch_members by (rule member_states_send)
  have 3: "map member_state (transports (snd (multi_sendBatch events m)))
       = map (\<lambda>t. snd (sendBatch_method t events (member_state t))) (transports m)"
    unfolding multi_sendBatch_def dispatch_members by (rule member_states_sendBatch)
  have 4: "console_errors (snd (multi_send event m))
       = console_errors m
         @ List.map_filter
             (\<lambda>t. case fst (send_method t event (member_state t)) of
                     Rejected err \<Rightarrow> Some (transport_name t, err)
                   | Resolved u \<Rightarrow> None) (transports m)"
    unfolding multi_send_def dispatch_console logged_send by (rule refl)
  have 5: "console_errors (snd (multi_sendBatch events m))
       = console_errors m
         @ List.map_filter
             (\<lambda>t. case fst (sendBatch_method t events (member_state t)) of
                     Rejected err \<Rightarrow> Some (transport_name t, err)
                   | Resolved u \<Rightarrow> None) (transports m)"
    unfolding multi_sendBatch_def dispatch_console logged_sendBatch by (rule refl)
  from 1 2 3 4 5 show ?thesis by (intro conjI)
qed

text \<open>
  A composite of three members of which the second rejects: \<open>send\<close> and \<open>sendBatch\<close>
  resolve, all three members received the event and the batch, and the console has one
  line for the second member.
\<close>

theorem multi_send_absorbs_failures_witness:
  "fst (send_method (sample_member ''http'' True) (sample_log ! 0) (member_state (sample_member ''http'' True)))
     = Rejected (Error ''destination unavailable'')
   \<and> fst (multi_send (sample_log ! 0)
          \<lparr> transports = [sample_member ''file'' False, sample_member ''http'' True, sample_member ''audit'' False],
            console_errors = [] \<rparr>) = Resolved ()
   \<and> map calls (map member_state
         (transports (snd (multi_send (sample_log ! 0)
            \<lparr> transports = [sample_member ''file'' False, sample_member ''http'' True, sample_member ''audit'' False],
              console_errors = [] \<rparr>))))
       = [[SendCall (sample_log ! 0)], [SendCall (sample_log ! 0)], [SendCall (sample_log ! 0)]]
   \<and> console_errors (snd (multi_send (sample_log ! 0)
          \<lparr> transports = [sample_member ''file'' False, sample_member ''http'' True, sample_member ''audit'' False],
            console_errors = [] \<rparr>))
       = [(''http'', Error ''destination unavailable'')]
   \<and> fst (multi_sendBatch sample_log
          \<lparr> transports = [sample_member ''file'' False, sample_member ''http'' True, sample_member ''audit'' False],
            console_errors = [] \<rparr>) = Resolved ()
   \<and> map calls (map member_state
         (transports (snd (multi_sendBatch sample_log
            \<lparr> transports = [sample_member ''file'' False, sample_member ''http'' True, sample_member ''audit'' False],
              console_errors = [] \<rparr>))))
       = [[BatchCall sample_log], [BatchCall sample_log], [BatchCall sample_log]]"
proof -
  let ?m = "\<lparr> transports = [sample_member ''file'' False, sample_member ''http'' True, sample_member ''audit'' False],
              console_errors = [] \<rparr> :: recorder MultiTransport"
  note main = multi_send_absorbs_failures[of "sample_log ! 0" ?m sample_log]
  have 1: "fst (send_method (sample_member ''http'' True) (sample_log ! 0) (member_state (sample_member ''http'' True)))
     = Rejected (Error ''destination unavailable'')"
    by (simp add: sample_member_def recorded_def)
  have 2: "fst (multi_send (sample_log ! 0) ?m) = Resolved ()"
    using main by (elim conjE)
  have 3: "map calls (map member_state (transports (snd (multi_send (sample_log ! 0) ?m))))
       = [[SendCall (sample_log ! 0)], [SendCall (sample_log ! 0)], [SendCall (sample_log ! 0)]]"
    unfolding main[THEN conjunct2, THEN conjunct1]
    by (simp add: sample_member_def recorded_def)
  have 4: "console_errors (snd (multi_send (sample_log ! 0) ?m))
       = [(''http'', Error ''destination unavailable'')]"
    unfolding main[THEN conjunct2, THEN conjunct2, THEN conjunct1]
    by (simp add: sample_member_def recorded_def List.map_filter_simps)
  have 5: "fst (multi_sendBatch sample_log ?m) = Resolved ()"
    using main by (elim conjE)
  have 6: "map calls (map member_state (transports (snd (multi_sendBatch sample_log ?m))))
       = [[BatchCall sample_log], [BatchCall sample_log], [BatchCall sample_log]]"
    unfolding main[THEN conjunct2, THEN conjunct2, THEN conjunct2, THEN conjunct2, THEN conjunct1]
    by (simp add: sample_member_def recorded_def)
  from 1 2 3 4 5 6 show ?thesis by (intro conjI)
qed
section \<open>The File Transport: properties\<close>

lemma whitespace_newline: "js_whitespace newline"
  by (simp add: js_whitespace_def newline_def)

lemma unlines_simps:
  "unlines [] = []" "unlines (l # ls) = l @ newline # unlines ls"
  "unlines (xs @ ys) = unlines xs @ unlines ys"
  by (simp_all add: unlines_def)

lemma join_newline_unlines: "ls \<noteq> [] \<Longrightarrow> join [newline] ls @ [newline] = unlines ls"
  by (induction "[newline]" ls rule: join.induct) (simp_all add: unlines_simps)

lemma join_snoc_unlines: "join [newline] (xs @ [l]) = unlines xs @ l"
proof (induction xs)
  case Nil
  show ?case by (simp add: unlines_simps)
next
  case (Cons x xs)
  then show ?case by (cases xs) (simp_all add: unlines_simps)
qed

lemma dropWhile_unlines:
  assumes "\<forall>l \<in> set ls. l = [] \<or> \<not> js_whitespace (hd l)"
  shows "dropWhile js_whitespace (unlines ls) = unlines (dropWhile (\<lambda>l. l = []) ls)"
  using assms
proof (induction ls)
  case Nil
  show ?case by (simp add: unlines_simps)
next
  case (Cons l ls)
  show ?case
  proof (cases "l = []")
    case True
    then show ?thesis using Cons by (simp add: unlines_simps whitespace_newline)
  next
    case False
    then obtain c cs where l: "l = c # cs" by (cases l) auto
    with Cons.prems have "\<not> js_whitespace c" by simp
    then show ?thesis using l by (simp add: unlines_simps)
  qed
qed

lemma drop_trailing_unlines:
  assumes "\<forall>l \<in> set ls. l = [] \<or> \<not> js_whitespace (last l)"
  shows "rev (dropWhile js_whitespace (rev (unlines ls)))
         = join [newline] (rev (dropWhile (\<lambda>l. l = []) (rev ls)))"
  using assms
proof (induction ls rule: rev_induct)
  case Nil
  show ?case by (simp add: unlines_simps)
next
  case (snoc l ls)
  show ?case
  proof (cases "l = []")
    case True
    then show ?thesis using snoc by (simp add: unlines_simps whitespace_newline)
  next
    case False
    with snoc.prems have nw: "\<not> js_whitespace (last l)" by simp
    have "rev (unlines (ls @ [l])) = newline # rev l @ rev (unlines ls)"
      by (simp add: unlines_simps)
    moreover have "dropWhile js_whitespace (rev l @ rev (unlines ls)) = rev l @ rev (unlines ls)"
      using False nw by (cases "rev l") (auto simp: last_rev hd_rev[symmetric] dest: arg_cong[where f = hd])
    ultimately have "rev (dropWhile js_whitespace (rev (unlines (ls @ [l])))) = unlines ls @ l"
      by (simp add: whitespace_newline)
    then show ?thesis using False by (simp add: join_snoc_unlines)
  qed
qed

lemma split_on_no_sep: "c \<notin> set l \<Longrightarrow> split_on c l = [l]"
  by (induction l) auto

lemma split_on_line: "c \<notin> set l \<Longrightarrow> split_on c (l @ c # s) = l # split_on c s"
  by (induction l) auto

lemma split_join:
  assumes "\<forall>l \<in> set ls. newline \<notin> set l" and "ls \<noteq> []"
  shows "split_on newline (join [newline] ls) = ls"
  using assms
proof (induction "[newline]" ls rule: join.induct)
  case 1
  then show ?case by simp
next
  case (2 x)
  then show ?case by (simp add: split_on_no_sep)
next
  case (3 x y ys)
  then show ?case by (simp add: split_on_line)
qed

lemma trim_line:
  assumes "l \<noteq> []" "\<not> js_whitespace (hd l)" "\<not> js_whitespace (last l)"
  shows "trim l = l"
proof -
  from assms obtain c cs where l: "l = c # cs" by (cases l) auto
  with assms(2) have 1: "dropWhile js_whitespace l = l" by simp
  from assms(1,3) obtain d ds where r: "rev l = d # ds" "\<not> js_whitespace d"
    by (cases "rev l") (auto simp: last_rev hd_rev[symmetric] dest: arg_cong[where f = hd])
  then have "dropWhile js_whitespace (rev l) = rev l" by simp
  with 1 show ?thesis by (simp add: trim_def)
qed

lemma trim_empty: "trim [] = []"
  by (simp add: trim_def)

lemma filter_dropWhile_not: "filter P (dropWhile (\<lambda>x. \<not> P x) xs) = filter P xs"
  by (induction xs) auto

text \<open>Reading back a text of lines, each of which is empty or starts and ends with a character that is not white space.\<close>

lemma read_unlines:
  assumes good: "\<forall>l \<in> set ls. l = [] \<or> (\<not> js_whitespace (hd l) \<and> \<not> js_whitespace (last l) \<and> newline \<notin> set l)"
  shows "filter (\<lambda>line. trim line \<noteq> []) (split_on newline (trim (unlines ls)))
         = filter (\<lambda>l. l \<noteq> []) ls"
proof -
  let ?front = "dropWhile (\<lambda>l. l = []) ls"
  let ?mid = "rev (dropWhile (\<lambda>l. l = []) (rev ?front))"
  have "set ?mid \<subseteq> set ?front"
    by (auto dest: set_dropWhileD)
  moreover have front: "set ?front \<subseteq> set ls"
    by (auto dest: set_dropWhileD)
  ultimately have sub: "set ?mid \<subseteq> set ls" by blast
  have 1: "dropWhile js_whitespace (unlines ls) = unlines ?front"
    using good by (intro dropWhile_unlines) auto
  have "\<forall>l \<in> set ?front. l = [] \<or> \<not> js_whitespace (last l)"
    using good front by blast
  then have 2: "trim (unlines ls) = join [newline] ?mid"
    unfolding trim_def 1 by (rule drop_trailing_unlines)
  have keep: "filter (\<lambda>line. trim line \<noteq> []) xs = filter (\<lambda>l. l \<noteq> []) xs" if "set xs \<subseteq> set ls" for xs
  proof (rule filter_cong[OF refl])
    fix l assume "l \<in> set xs"
    with that good have "l = [] \<or> (\<not> js_whitespace (hd l) \<and> \<not> js_whitespace (last l))" by auto
    then show "(trim l \<noteq> []) = (l \<noteq> [])"
      using trim_line[of l] by (cases "l = []") (auto simp: trim_empty)
  qed
  have drop: "filter (\<lambda>l. l \<noteq> []) (dropWhile (\<lambda>l. l = []) xs) = filter (\<lambda>l. l \<noteq> []) xs"
    for xs :: "string list"
    using filter_dropWhile_not[of "\<lambda>l. l \<noteq> []" xs] by simp
  have "filter (\<lambda>l. l \<noteq> []) ?mid
        = rev (filter (\<lambda>l. l \<noteq> []) (dropWhile (\<lambda>l. l = []) (rev ?front)))"
    by (rule rev_filter[symmetric])
  also have "\<dots> = rev (filter (\<lambda>l. l \<noteq> []) (rev ?front))"
    by (simp only: drop)
  also have "\<dots> = filter (\<lambda>l. l \<noteq> []) ?front"
    by (simp only: rev_filter rev_rev_ident)
  finally have mid: "filter (\<lambda>l. l \<noteq> []) ?mid = filter (\<lambda>l. l \<noteq> []) ls"
    by (simp only: drop)
  show ?thesis
  proof (cases "?mid = []")
    case True
    have "filter (\<lambda>l. l \<noteq> []) ls = filter (\<lambda>l. l \<noteq> []) ?mid"
      by (rule mid[symmetric])
    also have "\<dots> = []"
      by (simp only: True filter.simps)
    finally have none: "filter (\<lambda>l. l \<noteq> []) ls = []" .
    have t: "trim (unlines ls) = []"
      by (simp only: 2 True join.simps)
    have "filter (\<lambda>line. trim line \<noteq> []) (split_on newline []) = []"
      by (simp add: trim_empty)
    then show ?thesis by (simp only: t none)
  next
    case False
    have "\<forall>l \<in> set ?mid. newline \<notin> set l"
    proof
      fix l assume "l \<in> set ?mid"
      then have "l \<in> set ls" using sub by blast
      with good have "l = [] \<or> newline \<notin> set l" by blast
      then show "newline \<notin> set l" by auto
    qed
    then have "split_on newline (join [newline] ?mid) = ?mid"
      using False by (rule split_join)
    then have s: "split_on newline (trim (unlines ls)) = ?mid"
      by (simp only: 2)
    show ?thesis by (simp only: s keep[OF sub] mid)
  qed
qed


lemma appendToFile_content:
  "fileContent (appendToFile codec events t)
   = Some ((case fileContent t of None \<Rightarrow> [] | Some c \<Rightarrow> c)
           @ unlines (if events = [] then [[]] else map (stringify codec) events))"
proof (cases "events = []")
  case True
  then show ?thesis
    by (simp add: appendToFile_def appendFile_def unlines_simps split: option.splits)
next
  case False
  then have "join [newline] (map (stringify codec) events) @ [newline]
             = unlines (map (stringify codec) events)"
    by (intro join_newline_unlines) simp
  then show ?thesis using False
    by (simp add: appendToFile_def appendFile_def split: option.splits)
qed

lemma file_write_step_content:
  "fileContent (file_write_step codec w t)
   = Some ((case fileContent t of None \<Rightarrow> [] | Some c \<Rightarrow> c) @ unlines (write_lines codec w))"
  by (cases w) (simp_all add: file_doSend_def file_doSendBatch_def Let_def appendToFile_content)

lemma file_writes_content:
  "ws \<noteq> [] \<Longrightarrow>
   fileContent (file_writes codec ws t)
   = Some ((case fileContent t of None \<Rightarrow> [] | Some c \<Rightarrow> c)
           @ unlines (concat (map (write_lines codec) ws)))"
proof (induction ws arbitrary: t)
  case Nil
  then show ?case by simp
next
  case (Cons w ws)
  show ?case
  proof (cases "ws = []")
    case True
    then show ?thesis by (simp add: file_write_step_content)
  next
    case False
    from Cons.IH[OF False, of "file_write_step codec w t"]
    show ?thesis by (simp add: file_write_step_content unlines_simps)
  qed
qed

lemma file_writes_store:
  "inMemoryStore (file_writes codec ws t) = inMemoryStore t @ written ws"
proof (induction ws arbitrary: t)
  case Nil
  show ?case by simp
next
  case (Cons w ws)
  show ?case
    by (cases w) (simp_all add: Cons.IH file_doSend_def file_doSendBatch_def Let_def appendToFile_def)
qed

lemma written_lines:
  assumes "\<forall>e \<in> set (written ws). stringify codec e \<noteq> []"
  shows "filter (\<lambda>l. l \<noteq> []) (concat (map (write_lines codec) ws))
         = map (stringify codec) (written ws)"
  using assms
proof (induction ws rule: written.induct)
  case 1
  show ?case by simp
next
  case (2 e ws)
  then show ?case by simp
next
  case (3 es ws)
  have "filter (\<lambda>l. l \<noteq> []) (map (stringify codec) es) = map (stringify codec) es"
    using 3(2) by (simp add: filter_id_conv)
  then show ?case using 3 by simp
qed

lemma set_write_lines:
  "l \<in> set (concat (map (write_lines codec) ws)) \<Longrightarrow>
   l = [] \<or> (\<exists>e \<in> set (written ws). l = stringify codec e)"
  by (induction ws rule: written.induct) (auto split: if_splits)

lemma parse_back:
  "\<forall>e \<in> set es. parse codec (stringify codec e) = Some e \<Longrightarrow>
   List.map_filter (parse codec) (map (stringify codec) es) = es"
  by (induction es) (simp_all add: List.map_filter_simps)

text \<open>
  Claim C3. For every run of writes through \<open>doSend\<close> and \<open>doSendBatch\<close> to a file that
  is empty or does not exist yet, if every event written is well-formed for the file
  (its JSON text is one line from \<^verbatim>\<open>{\<close> to \<^verbatim>\<open>}\<close> and parses back to the event), then
  \<open>readFromFile\<close> returns the events written, in the order of the writes.
\<close>

theorem file_round_trip:
  assumes empty: "fileContent t = None \<or> fileContent t = Some []"
    and wellformed: "\<forall>e \<in> set (written ws). serialisable codec e"
  shows "readFromFile codec (file_writes codec ws t) = written ws"
proof (cases "ws = []")
  case True
  then show ?thesis using empty
    by (auto simp: readFromFile_def trim_def List.map_filter_simps)
next
  case False
  let ?ls = "concat (map (write_lines codec) ws)"
  have content: "fileContent (file_writes codec ws t) = Some (unlines ?ls)"
    using file_writes_content[OF False, of codec t] empty by auto
  have good: "\<forall>l \<in> set ?ls. l = [] \<or> (\<not> js_whitespace (hd l) \<and> \<not> js_whitespace (last l) \<and> newline \<notin> set l)"
  proof
    fix l assume "l \<in> set ?ls"
    then consider "l = []" | e where "e \<in> set (written ws)" "l = stringify codec e"
      using set_write_lines by blast
    then show "l = [] \<or> (\<not> js_whitespace (hd l) \<and> \<not> js_whitespace (last l) \<and> newline \<notin> set l)"
    proof cases
      case 1
      then show ?thesis by simp
    next
      case 2
      with wellformed have "serialisable codec e" by blast
      then show ?thesis using 2(2)
        by (simp add: serialisable_def Let_def js_whitespace_def)
    qed
  qed
  have nonempty: "\<forall>e \<in> set (written ws). stringify codec e \<noteq> []"
    using wellformed by (simp add: serialisable_def Let_def)
  have parses: "\<forall>e \<in> set (written ws). parse codec (stringify codec e) = Some e"
    using wellformed by (simp add: serialisable_def Let_def)
  have "readFromFile codec (file_writes codec ws t)
        = List.map_filter (parse codec)
            (filter (\<lambda>line. trim line \<noteq> []) (split_on newline (trim (unlines ?ls))))"
    by (simp add: readFromFile_def content)
  also have "\<dots> = List.map_filter (parse codec) (filter (\<lambda>l. l \<noteq> []) ?ls)"
    by (simp only: read_unlines[OF good])
  also have "\<dots> = List.map_filter (parse codec) (map (stringify codec) (written ws))"
    by (simp only: written_lines[OF nonempty])
  also have "\<dots> = written ws"
    by (rule parse_back[OF parses])
  finally show ?thesis .
qed

text \<open>Three sample events written by a send, an empty batch and a batch of two are read back in order.\<close>

lemma sample_serialisable: "list_all (serialisable sample_codec) (written sample_writes)"
  by code_simp

theorem file_round_trip_witness:
  "fileContent new_file = None
   \<and> list_all (serialisable sample_codec) (written sample_writes)
   \<and> readFromFile sample_codec (file_writes sample_codec sample_writes new_file) = written sample_writes"
proof -
  have 1: "fileContent new_file = None \<or> fileContent new_file = Some []"
    by (simp add: new_file_def)
  have 2: "\<forall>e \<in> set (written sample_writes). serialisable sample_codec e"
    using sample_serialisable by (simp only: list_all_iff)
  from file_round_trip[OF 1 2] sample_serialisable show ?thesis
    by (simp add: new_file_def)
qed

section \<open>The tracker and the hook: properties\<close>

lemma getExecutionContext_unknown:
  "tracker h eid = None \<Longrightarrow> getExecutionContext h eid = None"
  by (simp add: getExecutionContext_def getExecution_def)

text \<open>
  Claim C5. For an execution id that the tracker does not know, because the execution
  was never started or was cleaned up, \<open>startNode\<close> records nothing, \<open>completeNode\<close> and
  \<open>failNode\<close> return 0, \<open>completeExecution\<close> returns the duration 0 and the node count 0,
  and the hook's callbacks for the nodes and for the end of the workflow resolve, send
  no event and leave the hook as it was.
\<close>

theorem unknown_execution_noop:
  assumes "tracker h eid = None"
  shows "startNode now eid nodeName nc inputCount (tracker h) = (None, tracker h)
       \<and> completeNode now eid nodeName (tracker h) = (0, tracker h)
       \<and> failNode now eid nodeName (tracker h) = (0, tracker h)
       \<and> completeExecution now eid (tracker h) = (0, 0)
       \<and> onNodeStart send st now eid nodeName nodeType nodeId inputCount h = (Resolved (), h)
       \<and> onNodeComplete send st now eid nodeName nodeType nodeId outputCount h = (Resolved (), h)
       \<and> onNodeFail send st now eid nodeName nodeType nodeId err h = (Resolved (), h)
       \<and> onWorkflowComplete send fmt st st_eval now eid mode h = (Resolved (), h)
       \<and> onWorkflowFail send fmt st st_eval now eid err errorNode h = (Resolved (), h)"
  using assms getExecutionContext_unknown[OF assms]
  by (simp add: startNode_def completeNode_def failNode_def completeExecution_def
      onNodeStart_def onNodeComplete_def onNodeFail_def onWorkflowComplete_def onWorkflowFail_def)

text \<open>After \<open>cleanup\<close> the execution is unknown.\<close>

lemma cleanup_unknown: "tracker (cleanup eid h) eid = None"
  by (simp add: cleanup_def cleanupExecution_def)

text \<open>
  An execution that was started and cleaned up, and one that was never started: a late
  node callback and a late failure callback do nothing.
\<close>

theorem unknown_execution_noop_witness:
  "tracker (cleanup ''exec-A'' (run_calls recorder_send calls_a fresh_hook)) ''exec-A'' = None
   \<and> completeNode 2000 ''exec-A'' ''Fetch'' (tracker (cleanup ''exec-A'' (run_calls recorder_send calls_a fresh_hook)))
       = (0, tracker (cleanup ''exec-A'' (run_calls recorder_send calls_a fresh_hook)))
   \<and> onNodeComplete recorder_send (sample_stamp 7) 2000 ''exec-A'' ''Fetch'' ''http'' None None
         (cleanup ''exec-A'' (run_calls recorder_send calls_a fresh_hook))
       = (Resolved (), cleanup ''exec-A'' (run_calls recorder_send calls_a fresh_hook))
   \<and> tracker fresh_hook ''exec-Z'' = None
   \<and> onWorkflowFail recorder_send decimal_format (sample_stamp 8) (sample_stamp 9) 2000 ''exec-Z''
         sample_error None fresh_hook
       = (Resolved (), fresh_hook)"
proof -
  let ?h = "cleanup ''exec-A'' (run_calls recorder_send calls_a fresh_hook)"
  have 1: "tracker ?h ''exec-A'' = None" by (rule cleanup_unknown)
  have 2: "tracker fresh_hook ''exec-Z'' = None" by (simp add: fresh_hook_def)
  from unknown_execution_noop[OF 1, where now = 2000 and nodeName = "''Fetch''"
         and send = recorder_send and st = "sample_stamp 7" and nodeType = "''http''"
         and nodeId = None and outputCount = None]
       unknown_execution_noop[OF 2, where now = 2000 and send = recorder_send
         and st = "sample_stamp 8" and st_eval = "sample_stamp 9" and fmt = decimal_format
         and err = sample_error and errorNode = None]
       1 2
  show ?thesis by simp
qed

lemma getExecutionContext_id:
  "keyed (tracker h) \<Longrightarrow> getExecutionContext h eid = Some ctx \<Longrightarrow> ExecutionContext.execution_id ctx = eid"
  by (auto simp: getExecutionContext_def getExecution_def keyed_def split: option.splits)

lemma sendEvent_view:
  "execution_id event \<noteq> eid \<Longrightarrow> execution_view (snd (sendEvent send event h)) eid = execution_view h eid"
  by (simp add: sendEvent_def execution_view_def Let_def split: prod.splits)

lemma sendEvent_tracker: "tracker (snd (sendEvent send event h)) = tracker h"
  by (simp add: sendEvent_def Let_def split: prod.splits)

lemma sendEvent_config: "hookConfig (snd (sendEvent send event h)) = hookConfig h"
  by (simp add: sendEvent_def Let_def split: prod.splits)

lemma sendEvent_events:
  "executionEvents (snd (sendEvent send event h))
   = (executionEvents h)(execution_id event \<mapsto>
        (case executionEvents h (execution_id event) of None \<Rightarrow> [] | Some es \<Rightarrow> es) @ [event])"
  by (simp add: sendEvent_def Let_def split: prod.splits)

lemma created_execution_id:
  "execution_id (createBaseEvent st ctx ty s p) = ExecutionContext.execution_id ctx"
  "execution_id (createWorkflowStartedEvent st ctx mode retryOf isManual) = ExecutionContext.execution_id ctx"
  "execution_id (createNodeStartedEvent st ctx nc inputCount) = ExecutionContext.execution_id ctx"
  "execution_id (createNodeCompletedEvent st ctx nc d outputCount) = ExecutionContext.execution_id ctx"
  "execution_id (createNodeFailedEvent st ctx nc d err) = ExecutionContext.execution_id ctx"
  by (simp_all add: createBaseEvent_def createWorkflowStartedEvent_def createNodeStartedEvent_def
      createNodeCompletedEvent_def createNodeFailedEvent_def)

lemma tracker_ops_other:
  "eid' \<noteq> eid \<Longrightarrow> snd (startExecution now eid wid wname sid meta ex) eid' = ex eid'"
  "eid' \<noteq> eid \<Longrightarrow> snd (startNode now eid n nc c ex) eid' = ex eid'"
  "eid' \<noteq> eid \<Longrightarrow> snd (completeNode now eid n ex) eid' = ex eid'"
  "eid' \<noteq> eid \<Longrightarrow> snd (failNode now eid n ex) eid' = ex eid'"
  "eid' \<noteq> eid \<Longrightarrow> cleanupExecution eid ex eid' = ex eid'"
  by (simp_all add: startExecution_def startNode_def completeNode_def failNode_def
      cleanupExecution_def Let_def split: option.splits)

lemma tracker_ops_keyed:
  assumes "keyed ex"
  shows "keyed (snd (startExecution now eid wid wname sid meta ex))"
    "keyed (snd (startNode now eid n nc c ex))"
    "keyed (snd (completeNode now eid n ex))"
    "keyed (snd (failNode now eid n ex))"
    "keyed (cleanupExecution eid ex)"
  using assms
  by (auto simp: keyed_def startExecution_def startNode_def completeNode_def failNode_def
      cleanupExecution_def Let_def split: option.splits if_splits)


lemma callback_tracker:
  "tracker (snd (onWorkflowStart send st now eid wid wname mode sid isManual retryOf meta h))
   = snd (startExecution now eid wid wname sid meta (tracker h))"
  "tracker (snd (onNodeStart send st now eid n ty nid inputCount h))
   = snd (startNode now eid n \<lparr> node_id = nid, node_name = n, node_type = ty, node_index = None \<rparr>
            inputCount (tracker h))"
  "tracker (snd (onNodeComplete send st now eid n ty nid outputCount h))
   = snd (completeNode now eid n (tracker h))"
  "tracker (snd (onNodeFail send st now eid n ty nid err h))
   = snd (failNode now eid n (tracker h))"
  by (simp_all add: onWorkflowStart_def onNodeStart_def onNodeComplete_def onNodeFail_def
      getExecutionContext_def getExecution_def startExecution_def startNode_def completeNode_def
      failNode_def sendEvent_tracker Let_def split: option.splits prod.splits)

lemma callback_config:
  "hookConfig (snd (onWorkflowStart send st now eid wid wname mode sid isManual retryOf meta h)) = hookConfig h"
  "hookConfig (snd (onNodeStart send st now eid n ty nid inputCount h)) = hookConfig h"
  "hookConfig (snd (onNodeComplete send st now eid n ty nid outputCount h)) = hookConfig h"
  "hookConfig (snd (onNodeFail send st now eid n ty nid err h)) = hookConfig h"
  by (simp_all add: onWorkflowStart_def onNodeStart_def onNodeComplete_def onNodeFail_def
      sendEvent_config Let_def split: option.splits prod.splits)

lemma callback_events:
  "executionEvents (snd (onNodeStart send st now eid n ty nid inputCount h))
   = (case getExecutionContext h eid of
        None \<Rightarrow> executionEvents h
      | Some ctx \<Rightarrow> appended (executionEvents h)
          (createNodeStartedEvent st ctx \<lparr> node_id = nid, node_name = n, node_type = ty, node_index = None \<rparr> inputCount))"
  "executionEvents (snd (onNodeComplete send st now eid n ty nid outputCount h))
   = (case getExecutionContext h eid of
        None \<Rightarrow> executionEvents h
      | Some ctx \<Rightarrow> appended (executionEvents h)
          (createNodeCompletedEvent st ctx \<lparr> node_id = nid, node_name = n, node_type = ty, node_index = None \<rparr>
             (fst (completeNode now eid n (tracker h))) outputCount))"
  "executionEvents (snd (onNodeFail send st now eid n ty nid err h))
   = (case getExecutionContext h eid of
        None \<Rightarrow> executionEvents h
      | Some ctx \<Rightarrow> appended (executionEvents h)
          (createNodeFailedEvent st ctx \<lparr> node_id = nid, node_name = n, node_type = ty, node_index = None \<rparr>
             (fst (failNode now eid n (tracker h))) err))"
  by (simp_all add: onNodeStart_def onNodeComplete_def onNodeFail_def appended_def
      sendEvent_events Let_def split: option.splits prod.splits)


lemma context_local:
  "tracker h1 eid = tracker h2 eid \<Longrightarrow> hookConfig h1 = hookConfig h2 \<Longrightarrow>
   getExecutionContext h1 eid = getExecutionContext h2 eid"
  by (simp add: getExecutionContext_def getExecution_def split: option.splits)

lemma onWorkflowStart_events:
  "\<exists>ctx. getExecutionContext
           (h \<lparr> tracker := snd (startExecution now eid wid wname sid meta (tracker h)) \<rparr>) eid = Some ctx
       \<and> ExecutionContext.execution_id ctx = eid
       \<and> executionEvents (snd (onWorkflowStart send st now eid wid wname mode sid isManual retryOf meta h))
           = (executionEvents h)(eid \<mapsto> [createWorkflowStartedEvent st ctx mode retryOf isManual])"
  by (simp add: onWorkflowStart_def getExecutionContext_def getExecution_def startExecution_def
      sendEvent_events created_execution_id Let_def)

lemma appended_other:
  "execution_id event \<noteq> eid \<Longrightarrow> appended buffers event eid = buffers eid"
  by (simp add: appended_def)

lemma appended_local:
  "buffers1 (execution_id event) = buffers2 (execution_id event) \<Longrightarrow>
   appended buffers1 event (execution_id event) = appended buffers2 event (execution_id event)"
  by (simp add: appended_def)

lemma tracker_ops_local:
  assumes "ex1 eid = ex2 eid"
  shows "snd (startExecution now eid wid wname sid meta ex1) eid
         = snd (startExecution now eid wid wname sid meta ex2) eid"
    "snd (startNode now eid n nc c ex1) eid = snd (startNode now eid n nc c ex2) eid"
    "snd (completeNode now eid n ex1) eid = snd (completeNode now eid n ex2) eid"
    "fst (completeNode now eid n ex1) = fst (completeNode now eid n ex2)"
    "snd (failNode now eid n ex1) eid = snd (failNode now eid n ex2) eid"
    "fst (failNode now eid n ex1) = fst (failNode now eid n ex2)"
    "cleanupExecution eid ex1 eid = cleanupExecution eid ex2 eid"
  using assms
  by (simp_all add: startExecution_def startNode_def completeNode_def failNode_def
      cleanupExecution_def Let_def split: option.splits)

lemma run_call_keyed: "keyed (tracker h) \<Longrightarrow> keyed (tracker (run_call send c h))"
  by (cases c) (simp_all add: tracker_ops_keyed callback_tracker)

lemma run_call_config: "hookConfig (run_call send c h) = hookConfig h"
  by (cases c) (simp_all add: callback_config)

lemma run_call_other:
  assumes inv: "keyed (tracker h)" and other: "call_execution c \<noteq> eid"
  shows "execution_view (run_call send c h) eid = execution_view h eid"
proof -
  have ctx: "ExecutionContext.execution_id ctx \<noteq> eid"
    if "getExecutionContext h (call_execution c) = Some ctx" for ctx
    using getExecutionContext_id[OF inv that] other by simp
  show ?thesis
  proof (cases c)
    case (OnWorkflowStart st now eid0 wid wname mode sid isManual retryOf meta)
    with onWorkflowStart_events[where h = h and now = now and eid = eid0 and wid = wid
           and wname = wname and sid = sid and meta = meta and send = send and st = st
           and mode = mode and isManual = isManual and retryOf = retryOf] other
    show ?thesis
      by (auto simp: execution_view_def callback_tracker tracker_ops_other)
  next
    case (OnNodeStart st now eid0 n ty nid inputCount)
    then show ?thesis using other ctx
      by (simp add: execution_view_def callback_tracker callback_events tracker_ops_other
          appended_other created_execution_id split: option.splits)
  next
    case (OnNodeComplete st now eid0 n ty nid outputCount)
    then show ?thesis using other ctx
      by (simp add: execution_view_def callback_tracker callback_events tracker_ops_other
          appended_other created_execution_id split: option.splits)
  next
    case (OnNodeFail st now eid0 n ty nid err)
    then show ?thesis using other ctx
      by (simp add: execution_view_def callback_tracker callback_events tracker_ops_other
          appended_other created_execution_id split: option.splits)
  qed (use other in \<open>simp_all add: execution_view_def tracker_ops_other\<close>)
qed

lemma run_call_local:
  assumes inv: "keyed (tracker h1)" "keyed (tracker h2)"
    and cfg: "hookConfig h1 = hookConfig h2"
    and same: "execution_view h1 eid = execution_view h2 eid"
    and own: "call_execution c = eid"
  shows "execution_view (run_call send1 c h1) eid = execution_view (run_call send2 c h2) eid"
proof -
  from same have tr: "tracker h1 eid = tracker h2 eid" and ev: "executionEvents h1 eid = executionEvents h2 eid"
    by (simp_all add: execution_view_def)
  have ctx: "getExecutionContext h1 eid = getExecutionContext h2 eid"
    using context_local[OF tr cfg] .
  have key: "ExecutionContext.execution_id ctx = eid" if "getExecutionContext h2 eid = Some ctx" for ctx
    using getExecutionContext_id[OF inv(2) that] .
  note loc = tracker_ops_local[of "tracker h1" eid "tracker h2", OF tr]
  show ?thesis
  proof (cases c)
    case (OnWorkflowStart st now eid0 wid wname mode sid isManual retryOf meta)
    with own have [simp]: "eid0 = eid" by simp
    let ?t1 = "h1 \<lparr> tracker := snd (startExecution now eid wid wname sid meta (tracker h1)) \<rparr>"
    let ?t2 = "h2 \<lparr> tracker := snd (startExecution now eid wid wname sid meta (tracker h2)) \<rparr>"
    have "getExecutionContext ?t1 eid = getExecutionContext ?t2 eid"
      by (rule context_local) (simp_all add: loc cfg)
    with onWorkflowStart_events[where h = h1 and now = now and eid = eid and wid = wid
           and wname = wname and sid = sid and meta = meta and send = send1 and st = st
           and mode = mode and isManual = isManual and retryOf = retryOf]
         onWorkflowStart_events[where h = h2 and now = now and eid = eid and wid = wid
           and wname = wname and sid = sid and meta = meta and send = send2 and st = st
           and mode = mode and isManual = isManual and retryOf = retryOf]
    show ?thesis using OnWorkflowStart
      by (auto simp: execution_view_def callback_tracker loc)
  next
    case (OnNodeStart st now eid0 n ty nid inputCount)
    with own have [simp]: "eid0 = eid" by simp
    show ?thesis using OnNodeStart ctx key ev
      by (auto simp: execution_view_def callback_tracker callback_events loc appended_def
          created_execution_id split: option.splits)
  next
    case (OnNodeComplete st now eid0 n ty nid outputCount)
    with own have [simp]: "eid0 = eid" by simp
    show ?thesis using OnNodeComplete ctx key ev
      by (auto simp: execution_view_def callback_tracker callback_events loc appended_def
          created_execution_id split: option.splits)
  next
    case (OnNodeFail st now eid0 n ty nid err)
    with own have [simp]: "eid0 = eid" by simp
    show ?thesis using OnNodeFail ctx key ev
      by (auto simp: execution_view_def callback_tracker callback_events loc appended_def
          created_execution_id split: option.splits)
  qed (use own tr ev in \<open>simp_all add: execution_view_def loc\<close>)
qed

lemma run_calls_projection:
  assumes "keyed (tracker h1)" "keyed (tracker h2)" "hookConfig h1 = hookConfig h2"
    and "execution_view h1 eid = execution_view h2 eid"
  shows "execution_view (run_calls send1 cl h1) eid
         = execution_view (run_calls send2 (filter (\<lambda>c. call_execution c = eid) cl) h2) eid"
  using assms
proof (induction cl arbitrary: h1 h2)
  case Nil
  then show ?case by simp
next
  case (Cons c rest)
  show ?case
  proof (cases "call_execution c = eid")
    case True
    have "execution_view (run_call send1 c h1) eid = execution_view (run_call send2 c h2) eid"
      using run_call_local[OF Cons.prems True] .
    from Cons.IH[OF run_call_keyed[OF Cons.prems(1)] run_call_keyed[OF Cons.prems(2)] _ this]
    show ?thesis using True Cons.prems(3) by (simp add: run_call_config)
  next
    case False
    have "execution_view (run_call send1 c h1) eid = execution_view h2 eid"
      using run_call_other[OF Cons.prems(1) False] Cons.prems(4) by simp
    from Cons.IH[OF run_call_keyed[OF Cons.prems(1)] Cons.prems(2) _ this]
    show ?thesis using False Cons.prems(3) by (simp add: run_call_config)
  qed
qed

text \<open>
  Claim C7. In a hook whose tracker holds every state under its own execution id, a
  call for one execution leaves the tracker state and the event buffer of every other
  execution as they were, and so does any run of such calls. In any interleaving of the
  calls of several executions, the state and the buffer of an execution are what the
  calls of that execution alone produce.
\<close>

theorem executions_isolated:
  assumes "keyed (tracker h)"
  shows "(call_execution c \<noteq> eid \<longrightarrow> execution_view (run_call send c h) eid = execution_view h eid)
       \<and> ((\<forall>c \<in> set cl. call_execution c \<noteq> eid) \<longrightarrow>
            execution_view (run_calls send cl h) eid = execution_view h eid)
       \<and> execution_view (run_calls send cl h) eid
           = execution_view (run_calls send (filter (\<lambda>c. call_execution c = eid) cl) h) eid"
proof -
  have proj: "execution_view (run_calls send cl h) eid
           = execution_view (run_calls send (filter (\<lambda>c. call_execution c = eid) cl) h) eid"
    using run_calls_projection[OF assms assms refl refl] .
  have "filter (\<lambda>c. call_execution c = eid) cl = []" if "\<forall>c \<in> set cl. call_execution c \<noteq> eid"
    using that by (simp add: filter_empty_conv)
  with proj have "execution_view (run_calls send cl h) eid = execution_view h eid"
    if "\<forall>c \<in> set cl. call_execution c \<noteq> eid"
    using that by simp
  with proj run_call_other[OF assms] show ?thesis by blast
qed


text \<open>Two executions whose callbacks interleave over a fresh hook.\<close>

lemma fresh_hook_keyed: "keyed (tracker fresh_hook)"
  by (simp add: keyed_def fresh_hook_def)

lemma interleaved_filter:
  "filter (\<lambda>c. call_execution c = ''exec-B'') interleaved_calls = calls_b"
  "list_all (\<lambda>c. call_execution c \<noteq> ''exec-B'') calls_a"
  by (simp_all add: interleaved_calls_def calls_a_def calls_b_def)

theorem executions_isolated_witness:
  "keyed (tracker fresh_hook)
   \<and> list_all (\<lambda>c. call_execution c \<noteq> ''exec-B'') calls_a
   \<and> execution_view (run_calls recorder_send calls_a fresh_hook) ''exec-B''
       = execution_view fresh_hook ''exec-B''
   \<and> execution_view (run_calls recorder_send interleaved_calls fresh_hook) ''exec-B''
       = execution_view (run_calls recorder_send calls_b fresh_hook) ''exec-B''"
proof -
  have other: "\<forall>c \<in> set calls_a. call_execution c \<noteq> ''exec-B''"
    using interleaved_filter(2) by (simp only: list_all_iff)
  have 1: "execution_view (run_calls recorder_send calls_a fresh_hook) ''exec-B''
       = execution_view fresh_hook ''exec-B''"
    by (rule executions_isolated[OF fresh_hook_keyed, THEN conjunct2, THEN conjunct1, THEN mp, OF other])
  have "execution_view (run_calls recorder_send interleaved_calls fresh_hook) ''exec-B''
       = execution_view (run_calls recorder_send
           (filter (\<lambda>c. call_execution c = ''exec-B'') interleaved_calls) fresh_hook) ''exec-B''"
    by (rule executions_isolated[OF fresh_hook_keyed, THEN conjunct2, THEN conjunct2])
  then have 2: "execution_view (run_calls recorder_send interleaved_calls fresh_hook) ''exec-B''
       = execution_view (run_calls recorder_send calls_b fresh_hook) ''exec-B''"
    by (simp only: interleaved_filter(1))
  from fresh_hook_keyed interleaved_filter(2) 1 2 show ?thesis by (intro conjI)
qed

end
